theory Spec2Isabelle
  imports Main "HOL-Library.Word"
begin

unbundle bit_operations_syntax

section \<open>HAT-trie (hattrie64d.c): data model\<close>

text \<open>
  The 64 bit build is modelled: \<open>HatSlot\<close> is \<open>unsigned long long\<close>, \<open>uint\<close> is 32 bits,
  \<open>ushort\<close> 16 and \<open>uchar\<close> 8.  Every C integer is a machine word of its width, so that
  \<open>+\<close> wraps as in C; list positions are natural numbers read from a word by \<open>unat\<close>.

  Memory is a store of typed blocks: the address of a block maps to its contents.  A
  read or write that leaves its block, goes through a null pointer or reads a block as
  another kind of node is undefined behaviour in C and a \<open>fault\<close> here.  Loops that C
  does not bound take a fuel argument and end in \<open>OutOfFuel\<close> when it is used up.
\<close>

type_synonym uchar = "8 word"
type_synonym ushort = "16 word"
type_synonym uint = "32 word"
type_synonym HatSlot = "64 word"

datatype fault = OutOfBounds | NullDeref | WrongNode | BadLength | NoRandom | OutOfFuel

definition bnd :: "fault + 'a \<Rightarrow> ('a \<Rightarrow> fault + 'b) \<Rightarrow> fault + 'b" where
  "bnd m f = (case m of Inl e \<Rightarrow> Inl e | Inr x \<Rightarrow> f x)"

definition HAT_slot_size :: nat where "HAT_slot_size = 8"
definition HAT_mask :: HatSlot where "HAT_mask = NOT 7"
definition HAT_type :: HatSlot where "HAT_type = 7"
definition HAT_node_size :: uint where "HAT_node_size = 16"
definition HAT_cache_line :: uint where "HAT_cache_line = 8"
definition HAT_seg :: uint where "HAT_seg = 65536 * 8 + 32"

text \<open>\<open>enum HAT_types\<close>.\<close>

definition HAT_radix :: uint where "HAT_radix = 0"
definition HAT_bucket :: uint where "HAT_bucket = 1"
definition HAT_array :: uint where "HAT_array = 2"
definition HAT_pail :: uint where "HAT_pail = 3"
definition HAT_1 :: uint where "HAT_1 = 4"
definition HAT_32 :: uint where "HAT_32 = 15"

definition HatBucketSlots :: uint where "HatBucketSlots = 2047"
definition HatBucketMax :: uint where "HatBucketMax = 65536"
definition HatPailMax :: uint where "HatPailMax = 127"
definition HatMax :: uint where "HatMax = HAT_32"

text \<open>
  \<open>HatSize[32]\<close> as \<open>main\<close> leaves it before the first \<open>hat_open\<close>: the initialiser, with
  \<open>HatBucketSlots * HAT_slot_size\<close> added to the bucket entry (\<open>sizeof(HatBucket)\<close> is 8)
  and \<open>HatPailMax * HAT_slot_size\<close> to the pail entry (\<open>sizeof(HatPail)\<close> is 0).  Entries
  16 to 31 are zero.  \<open>sizeof(HatBase)\<close> is 4.
\<close>

definition HatSizeTable :: "uint list" where
  "HatSizeTable =
     [8 * 128, 8 + HatBucketSlots * 8, 0, 0 + HatPailMax * 8,
      1 * HAT_node_size, 2 * HAT_node_size, 3 * HAT_node_size, 4 * HAT_node_size,
      6 * HAT_node_size, 8 * HAT_node_size, 10 * HAT_node_size, 12 * HAT_node_size,
      14 * HAT_node_size, 16 * HAT_node_size, 24 * HAT_node_size, 32 * HAT_node_size]
     @ replicate 16 0"

definition HatSize :: "uint \<Rightarrow> fault + uint" where
  "HatSize t = (if unat t < 32 then Inr (HatSizeTable ! unat t) else Inl OutOfBounds)"

definition sizeof_HatBase :: nat where "sizeof_HatBase = 4"

text \<open>
  \<open>HatBase\<close>: the header of an array node and, in \<open>keys\<close>, the rest of its block (the
  bytes from offset 4 to \<open>HatSize[type]\<close>): keys grow from the front, the aux slots
  from the back.
\<close>

record HatBase =
  nxt :: ushort
  type :: uchar
  cnt :: uchar
  keys :: "uchar list"

datatype node =
    RadixNode "HatSlot list"
  | BucketNode uint "HatSlot list"
  | PailNode "HatSlot list"
  | BaseNode HatBase

text \<open>
  A \<open>void *\<close> or \<open>uchar *\<close> into an array node: the null pointer, the constant
  \<open>(void *)1\<close>, or the byte at an offset of the block at an address.
\<close>

datatype ptr = NULL | One | Cell HatSlot nat

text \<open>
  The process state: the \<open>Hat\<close> object with the blocks of its arena (\<open>mem\<close>), and the
  statistics globals of the file.  \<open>root\<close> is the address of the root table
  \<open>hat->root\<close>, itself a block of \<open>mem\<close>; \<open>seg\<close> is the chain of segments, current one
  first, each with its address and its \<open>next\<close> offset; \<open>reuse[type]\<close> is the chain of freed
  blocks of a type, last freed first; \<open>mallocs\<close> counts the calls of \<open>malloc\<close>.
\<close>

record Hat =
  mem :: "HatSlot \<Rightarrow> node option"
  reuse :: "uint \<Rightarrow> HatSlot list"
  counts :: "uint \<Rightarrow> int"
  seg :: "(HatSlot \<times> uint) list"
  bootlvl :: uint
  aux :: uint
  root :: HatSlot
  mallocs :: nat
  MaxMem :: "64 word"
  Searches :: "64 word"
  Probes :: "64 word"
  Bucket :: "64 word"
  Pail :: "64 word"
  Radix :: "64 word"
  Small :: "64 word"

text \<open>
  \<open>malloc\<close> is the environment's: its \<open>k\<close>-th call is taken to return the 8-aligned
  address \<open>(k + 1) * 2^32\<close>, so that blocks of different calls never overlap.
\<close>

definition malloc_addr :: "nat \<Rightarrow> HatSlot" where
  "malloc_addr k = (word_of_nat k + 1) * 4294967296"

subsection \<open>Access to blocks\<close>

definition deref_base :: "Hat \<Rightarrow> HatSlot \<Rightarrow> fault + HatBase" where
  "deref_base s a =
     (if a = 0 then Inl NullDeref
      else case mem s a of Some (BaseNode b) \<Rightarrow> Inr b | _ \<Rightarrow> Inl WrongNode)"

definition deref_bucket :: "Hat \<Rightarrow> HatSlot \<Rightarrow> fault + (uint \<times> HatSlot list)" where
  "deref_bucket s a =
     (if a = 0 then Inl NullDeref
      else case mem s a of Some (BucketNode c sl) \<Rightarrow> Inr (c, sl) | _ \<Rightarrow> Inl WrongNode)"

text \<open>A \<open>HatSlot *\<close>: the slot at an index of the table of a radix, bucket or pail node.\<close>

type_synonym slotref = "HatSlot \<times> nat"

definition slots_of :: "Hat \<Rightarrow> HatSlot \<Rightarrow> fault + HatSlot list" where
  "slots_of s a =
     (if a = 0 then Inl NullDeref
      else case mem s a of
        Some (RadixNode t) \<Rightarrow> Inr t
      | Some (BucketNode c sl) \<Rightarrow> Inr sl
      | Some (PailNode ar) \<Rightarrow> Inr ar
      | _ \<Rightarrow> Inl WrongNode)"

definition get_slot :: "Hat \<Rightarrow> slotref \<Rightarrow> fault + HatSlot" where
  "get_slot s r =
     bnd (slots_of s (fst r)) (\<lambda>t.
       if snd r < length t then Inr (t ! snd r) else Inl OutOfBounds)"

definition set_slot :: "Hat \<Rightarrow> slotref \<Rightarrow> HatSlot \<Rightarrow> fault + Hat" where
  "set_slot s r v =
     (if fst r = 0 then Inl NullDeref
      else case mem s (fst r) of
        Some (RadixNode t) \<Rightarrow>
          if snd r < length t
          then Inr (s\<lparr>mem := (mem s)(fst r := Some (RadixNode (t[snd r := v])))\<rparr>)
          else Inl OutOfBounds
      | Some (BucketNode c sl) \<Rightarrow>
          if snd r < length sl
          then Inr (s\<lparr>mem := (mem s)(fst r := Some (BucketNode c (sl[snd r := v])))\<rparr>)
          else Inl OutOfBounds
      | Some (PailNode ar) \<Rightarrow>
          if snd r < length ar
          then Inr (s\<lparr>mem := (mem s)(fst r := Some (PailNode (ar[snd r := v])))\<rparr>)
          else Inl OutOfBounds
      | _ \<Rightarrow> Inl WrongNode)"

definition put_base :: "Hat \<Rightarrow> HatSlot \<Rightarrow> HatBase \<Rightarrow> Hat" where
  "put_base s a b = s\<lparr>mem := (mem s)(a := Some (BaseNode b))\<rparr>"

text \<open>\<open>memcpy (dst + off, src, length src)\<close> into the bytes of one block.\<close>

definition memcpy :: "uchar list \<Rightarrow> nat \<Rightarrow> uchar list \<Rightarrow> fault + uchar list" where
  "memcpy dst off src =
     (if off + length src \<le> length dst
      then Inr (take off dst @ src @ drop (off + length src) dst)
      else Inl OutOfBounds)"

text \<open>The \<open>n\<close> bytes at an offset of the bytes of a block.\<close>

definition bytes_at :: "uchar list \<Rightarrow> nat \<Rightarrow> nat \<Rightarrow> fault + uchar list" where
  "bytes_at ks off n =
     (if off + n \<le> length ks then Inr (take n (drop off ks)) else Inl OutOfBounds)"

definition byte_at :: "uchar list \<Rightarrow> nat \<Rightarrow> fault + uchar" where
  "byte_at ks off = (if off < length ks then Inr (ks ! off) else Inl OutOfBounds)"

text \<open>
  The bytes behind a pointer into an array node, and a store through one.  An offset
  into the block is 4 more than the position in \<open>keys\<close>.
\<close>

definition read_ptr :: "Hat \<Rightarrow> ptr \<Rightarrow> nat \<Rightarrow> fault + uchar list" where
  "read_ptr s p n =
     (case p of
        Cell a off \<Rightarrow>
          bnd (deref_base s a) (\<lambda>b.
            if sizeof_HatBase \<le> off then bytes_at (keys b) (off - sizeof_HatBase) n
            else Inl OutOfBounds)
      | _ \<Rightarrow> Inl NullDeref)"

definition write_ptr :: "Hat \<Rightarrow> ptr \<Rightarrow> uchar list \<Rightarrow> fault + Hat" where
  "write_ptr s p src =
     (case p of
        Cell a off \<Rightarrow>
          bnd (deref_base s a) (\<lambda>b.
            if sizeof_HatBase \<le> off
            then bnd (memcpy (keys b) (off - sizeof_HatBase) src) (\<lambda>ks.
                   Inr (put_base s a (b\<lparr>keys := ks\<rparr>)))
            else Inl OutOfBounds)
      | _ \<Rightarrow> Inl NullDeref)"

subsection \<open>The arena: \<open>hat_alloc\<close>, \<open>hat_free\<close>, \<open>hat_open\<close>\<close>

text \<open>A zeroed block of \<open>HatSize[type]\<close> bytes, read as the node its type names.\<close>

definition zero_node :: "uint \<Rightarrow> fault + node" where
  "zero_node t =
     (if t = HAT_radix then Inr (RadixNode (replicate 128 0))
      else if t = HAT_bucket then Inr (BucketNode 0 (replicate (unat HatBucketSlots) 0))
      else if t = HAT_pail then Inr (PailNode (replicate (unat HatPailMax) 0))
      else bnd (HatSize t) (\<lambda>sz.
        Inr (BaseNode \<lparr>nxt = 0, type = 0, cnt = 0,
               keys = replicate (unat sz - sizeof_HatBase) 0\<rparr>)))"

definition round_up :: "uint \<Rightarrow> uint" where
  "round_up amt =
     (if amt AND (HAT_cache_line - 1) \<noteq> 0 then (amt OR (HAT_cache_line - 1)) + 1 else amt)"

text \<open>\<open>malloc (HAT_seg)\<close> and the new segment made current.\<close>

definition new_seg :: "Hat \<Rightarrow> Hat" where
  "new_seg s =
     (let a = malloc_addr (mallocs s);
          round = ucast (a AND 7) :: uint;
          next = (if round \<noteq> 0 then 16 + (HAT_cache_line - round) else 16)
      in s\<lparr>seg := (a, next) # seg s, mallocs := mallocs s + 1,
            MaxMem := MaxMem s + ucast HAT_seg\<rparr>)"

definition hat_alloc :: "Hat \<Rightarrow> uint \<Rightarrow> fault + (HatSlot \<times> Hat)" where
  "hat_alloc s t =
     bnd (HatSize t) (\<lambda>sz.
     bnd (zero_node t) (\<lambda>z.
       let amt = round_up sz;
           s1 = s\<lparr>counts := (counts s)(t := counts s t + 1)\<rparr>
       in case reuse s1 t of
            block # rest \<Rightarrow>
              Inr (block, s1\<lparr>reuse := (reuse s1)(t := rest),
                             mem := (mem s1)(block := Some z)\<rparr>)
          | [] \<Rightarrow>
             (case seg s1 of
                [] \<Rightarrow> Inl NullDeref
              | (a0, next0) # _ \<Rightarrow>
                  let s2 = (if next0 + amt > HAT_seg then new_seg s1 else s1)
                  in case seg s2 of
                       [] \<Rightarrow> Inl NullDeref
                     | (a, next) # segs \<Rightarrow>
                         let block = a + ucast next
                         in Inr (block, s2\<lparr>seg := (a, next + amt) # segs,
                                            mem := (mem s2)(block := Some z)\<rparr>))))"

definition hat_free :: "Hat \<Rightarrow> HatSlot \<Rightarrow> uint \<Rightarrow> Hat" where
  "hat_free s block t =
     s\<lparr>reuse := (reuse s)(t := block # reuse s t),
       counts := (counts s)(t := counts s t - 1),
       mem := (mem s)(block := None)\<rparr>"

text \<open>
  \<open>hat_open\<close>: the first segment, with the \<open>Hat\<close> object behind it at \<open>seg + HAT_seg\<close>;
  the root table starts at \<open>sizeof(Hat)\<close>, 400 bytes into the object, and has
  \<open>128 ^ boot\<close> slots.  With \<open>boot = 0\<close> the one root slot gets an empty bucket.
\<close>

definition hat_open :: "uint \<Rightarrow> uint \<Rightarrow> fault + Hat" where
  "hat_open boot aux0 =
     (let a = malloc_addr 0;
          round = ucast (a AND 7) :: uint;
          next = (if round \<noteq> 0 then 16 + (HAT_cache_line - round) else 16);
          sz = 8 * 128 ^ unat boot :: uint;
          amt = round_up (400 + sz);
          r = a + ucast HAT_seg + 400;
          s = \<lparr>mem = (\<lambda>x. None)(r := Some (RadixNode (replicate (128 ^ unat boot) 0))),
               reuse = (\<lambda>t. []), counts = (\<lambda>t. 0), seg = [(a, next)],
               bootlvl = boot, aux = aux0, root = r, mallocs = 1,
               MaxMem = ucast amt + ucast HAT_seg, Searches = 0, Probes = 0, Bucket = 0,
               Pail = 0, Radix = 0, Small = 0\<rparr>
      in if boot = 0
         then bnd (hat_alloc s HAT_bucket) (\<lambda>(b, s1). set_slot s1 (r, 0) (b OR ucast HAT_bucket))
         else Inr s)"

subsection \<open>\<open>hat_code\<close>\<close>

fun hat_code_loop :: "uint \<Rightarrow> uchar list \<Rightarrow> uint" where
  "hat_code_loop hash [] = hash"
| "hat_code_loop hash (b # buff) =
     hat_code_loop (hash + (push_bit 5 hash + drop_bit 27 hash + ucast b)) buff"

definition hat_code :: "uchar list \<Rightarrow> uint" where
  "hat_code buff = hat_code_loop (word_of_nat (length buff)) buff"

lemma hat_code_empty: "hat_code [] = 0"
  by (simp add: hat_code_def)


subsection \<open>Array nodes: \<open>hat_new_array\<close>, \<open>hat_add_array\<close>, \<open>hat_promote\<close>, pails\<close>

definition skip_of :: "uint \<Rightarrow> ushort" where
  "skip_of amt = (if amt > 0x7f then 2 else 1)"

text \<open>
  The length prefix as \<open>hat_new_array\<close> and \<open>hat_add_array\<close> store it: the second byte is
  written when \<open>amt > 0x7f\<close>.
\<close>

definition prefix_bytes :: "uint \<Rightarrow> uchar list" where
  "prefix_bytes amt =
     (if amt > 0x7f then [ucast (amt AND 0x7f) OR 0x80, ucast (drop_bit 7 amt)]
      else [ucast (amt AND 0x7f)])"

text \<open>
  The length prefix as \<open>hat_promote\<close> stores it: the flag and the second byte are written
  when \<open>amt & 0x80\<close>.
\<close>

definition promote_prefix_bytes :: "uint \<Rightarrow> uchar list" where
  "promote_prefix_bytes amt =
     (if amt AND 0x80 \<noteq> 0 then [ucast (amt AND 0x7f) OR 0x80, ucast (drop_bit 7 amt)]
      else [ucast (amt AND 0x7f)])"

text \<open>The address of the aux slot of the \<open>k\<close>-th key from the end of a block of \<open>sz\<close> bytes.\<close>

definition slot_ptr :: "HatSlot \<Rightarrow> uint \<Rightarrow> nat \<Rightarrow> uint \<Rightarrow> ptr" where
  "slot_ptr base sz k a = Cell base (unat sz - k * unat a)"

text \<open>\<open>while( hat->aux + amt + skip + sizeof(HatBase) > HatSize[type] ) type++;\<close>\<close>

function new_array_type :: "64 word \<Rightarrow> uint \<Rightarrow> fault + uint" where
  "new_array_type need t =
     (case HatSize t of
        Inl e \<Rightarrow> Inl e
      | Inr sz \<Rightarrow> if need > ucast sz then new_array_type need (t + 1) else Inr t)"
  by pat_completeness auto
termination
proof (relation "measure (\<lambda>(need, t). 32 - unat t)")
  show "wf (measure (\<lambda>(need, t). 32 - unat t))" by simp
next
  fix need :: "64 word" and t sz :: uint
  assume "HatSize t = Inr sz"
  then have lt: "unat t < 32"
    by (simp add: HatSize_def split: if_splits)
  then have "unat (t + 1) = unat t + 1"
    by (simp add: unat_word_ariths)
  with lt show "((need, t + 1), (need, t)) \<in> measure (\<lambda>(need, t). 32 - unat t)"
    by simp
qed

definition hat_new_array :: "Hat \<Rightarrow> slotref \<Rightarrow> uchar list \<Rightarrow> fault + (ptr \<times> Hat)" where
  "hat_new_array s parent buff =
     (let amt = word_of_nat (length buff) :: uint;
          skip = skip_of amt
      in bnd (new_array_type (ucast (aux s + amt + ucast skip) + 4) HAT_1) (\<lambda>t.
           if t > HatMax then Inr (NULL, s)
           else
             bnd (hat_alloc s t) (\<lambda>(base, s1).
             bnd (set_slot s1 parent (base OR ucast HAT_array)) (\<lambda>s2.
             bnd (deref_base s2 base) (\<lambda>b.
             bnd (HatSize t) (\<lambda>sz.
             bnd (memcpy (keys b) 0 (prefix_bytes amt)) (\<lambda>ks1.
             bnd (memcpy ks1 (unat skip) buff) (\<lambda>ks2.
               Inr (slot_ptr base sz 1 (aux s),
                    put_base s2 base
                      (b\<lparr>keys := ks2, nxt := ucast (amt + ucast skip), type := ucast t,
                         cnt := 1\<rparr>))))))))))"

text \<open>
  \<open>do if( need > HatSize[type] ) continue; else break; while( type++ < HatMax );\<close>
  The result is above \<open>HatMax\<close> when no sz fits.
\<close>

function promote_type :: "64 word \<Rightarrow> uint \<Rightarrow> fault + uint" where
  "promote_type need t =
     (case HatSize t of
        Inl e \<Rightarrow> Inl e
      | Inr sz \<Rightarrow>
          if need > ucast sz
          then (if t < HatMax then promote_type need (t + 1) else Inr (t + 1))
          else Inr t)"
  by pat_completeness auto
termination
proof (relation "measure (\<lambda>(need, t). unat HatMax - unat t)")
  show "wf (measure (\<lambda>(need, t). unat HatMax - unat t))" by simp
next
  fix need :: "64 word" and t sz :: uint
  assume "t < HatMax"
  then have lt: "unat t < unat HatMax"
    by (simp add: word_less_nat_alt)
  moreover have "unat HatMax = 15"
    by (simp add: HatMax_def HAT_32_def)
  ultimately have "unat (t + 1) = unat t + 1"
    by (simp add: unat_word_ariths)
  with lt show "((need, t + 1), (need, t)) \<in> measure (\<lambda>(need, t). unat HatMax - unat t)"
    by simp
qed

text \<open>
  The length of the key stored at \<open>tst\<close> and the bytes its prefix takes, as the loops
  with an \<open>ushort len\<close> decode it: \<open>len = keys[tst++]; if( len & 0x80 ) len &= 0x7f,
  len += keys[tst++] << 7;\<close>
\<close>

definition key_len :: "uchar list \<Rightarrow> nat \<Rightarrow> fault + (ushort \<times> ushort)" where
  "key_len ks tst =
     bnd (byte_at ks tst) (\<lambda>b0.
       if b0 AND 0x80 \<noteq> 0
       then bnd (byte_at ks (tst + 1)) (\<lambda>b1.
              Inr (ucast (b0 AND 0x7f) + push_bit 7 (ucast b1), 2))
       else Inr (ucast b0, 1))"

text \<open>Copy the aux bytes of key \<open>cnt\<close> of the old array \<open>base\<close> to \<open>cell\<close>, if there are any.\<close>

definition copy_aux :: "Hat \<Rightarrow> ptr \<Rightarrow> HatSlot \<Rightarrow> nat \<Rightarrow> fault + Hat" where
  "copy_aux s cell base k =
     (if aux s \<noteq> 0
      then bnd (deref_base s base) (\<lambda>b.
           bnd (HatSize (ucast (type b))) (\<lambda>sz.
           bnd (read_ptr s (slot_ptr base sz (k + 1) (aux s)) (unat (aux s))) (\<lambda>v.
             write_ptr s cell v)))
      else Inr s)"

text \<open>
  The test of \<open>hat_add_array\<close> and \<open>hat_promote\<close> for a block of \<open>sz\<close> bytes: the sum is
  an \<open>uint\<close> until \<open>sizeof(HatBase)\<close>, a \<open>size_t\<close>, is added.
\<close>

definition array_need :: "Hat \<Rightarrow> HatBase \<Rightarrow> uint \<Rightarrow> 64 word" where
  "array_need s b amt =
     ucast ((ucast (cnt b) + 1) * aux s + ucast (nxt b) + amt + ucast (skip_of amt)) + 4"

text \<open>\<open>hat_add_array\<close>, the branch that adds the key to the existing array.\<close>

definition add_in_place ::
  "Hat \<Rightarrow> HatSlot \<Rightarrow> HatBase \<Rightarrow> uint \<Rightarrow> uchar list \<Rightarrow> fault + (ptr \<times> Hat)" where
  "add_in_place s base b sz buff =
     (let amt = word_of_nat (length buff) :: uint;
          skip = skip_of amt
      in bnd (memcpy (keys b) (unat (nxt b) + unat skip) buff) (\<lambda>ks1.
         bnd (memcpy ks1 (unat (nxt b)) (prefix_bytes amt)) (\<lambda>ks2.
           let b' = b\<lparr>keys := ks2, nxt := nxt b + ucast (amt + ucast skip),
                      cnt := cnt b + 1\<rparr>
           in Inr (slot_ptr base sz (unat (cnt b')) (aux s), put_base s base b'))))"

text \<open>\<open>hat_promote\<close>, the choice of the new type.\<close>

definition promote_pick :: "Hat \<Rightarrow> HatBase \<Rightarrow> uint \<Rightarrow> fault + uint" where
  "promote_pick s b amt =
     (if aux s = 0 \<or> cnt b < 255
      then promote_type (array_need s b amt) (ucast (type b))
      else Inr (HatMax + 1))"

text \<open>
  \<open>hat_promote\<close>, from ``promote node to next larger size'' on: the keys and the aux
  slots of the old array \<open>b\<close> at \<open>base\<close> are copied to a new block of type \<open>t\<close>, the new
  key is appended and the old block is freed.
\<close>

definition promote_to ::
  "Hat \<Rightarrow> slotref \<Rightarrow> HatSlot \<Rightarrow> HatBase \<Rightarrow> uint \<Rightarrow> uchar list \<Rightarrow> fault + (ptr \<times> Hat)" where
  "promote_to s parent base b t buff =
     (let amt = word_of_nat (length buff) :: uint;
          skip = skip_of amt;
          n_slots = unat (cnt b) * unat (aux s)
      in bnd (HatSize (ucast (type b))) (\<lambda>oldsz.
         bnd (hat_alloc s t) (\<lambda>(newbase, s1).
         bnd (set_slot s1 parent (newbase OR ucast HAT_array)) (\<lambda>s2.
         bnd (deref_base s2 newbase) (\<lambda>nb.
         bnd (HatSize t) (\<lambda>sz.
         bnd (bytes_at (keys b) 0 (unat (nxt b))) (\<lambda>oldkeys.
         bnd (memcpy (keys nb) 0 oldkeys) (\<lambda>ks1.
         bnd (if aux s = 0 then Inr ks1
              else if n_slots + sizeof_HatBase \<le> unat oldsz \<and> n_slots + sizeof_HatBase \<le> unat sz
              then bnd (bytes_at (keys b) (unat oldsz - n_slots - sizeof_HatBase) n_slots)
                     (memcpy ks1 (unat sz - n_slots - sizeof_HatBase))
              else Inl OutOfBounds) (\<lambda>ks2.
         bnd (memcpy ks2 (unat (nxt b)) (promote_prefix_bytes amt)) (\<lambda>ks3.
         bnd (memcpy ks3 (unat (nxt b) + unat skip) buff) (\<lambda>ks4.
           let nb' = nb\<lparr>keys := ks4, nxt := nxt b + ucast (amt + ucast skip),
                        cnt := cnt b + 1, type := ucast t\<rparr>
           in Inr (slot_ptr newbase sz (unat (cnt nb')) (aux s),
                   hat_free (put_base s2 newbase nb') base (ucast (type b))))))))))))))"

function hat_add_array :: "nat \<Rightarrow> Hat \<Rightarrow> slotref \<Rightarrow> uchar list \<Rightarrow> bool \<Rightarrow> fault + (ptr \<times> Hat)"
and hat_promote :: "nat \<Rightarrow> Hat \<Rightarrow> slotref \<Rightarrow> uchar list \<Rightarrow> bool \<Rightarrow> fault + (ptr \<times> Hat)"
and hat_new_pail :: "nat \<Rightarrow> Hat \<Rightarrow> slotref \<Rightarrow> uchar list \<Rightarrow> fault + (ptr \<times> Hat)"
and new_pail_loop :: "nat \<Rightarrow> Hat \<Rightarrow> HatSlot \<Rightarrow> HatSlot \<Rightarrow> ushort \<Rightarrow> ushort \<Rightarrow> fault + Hat"
and hat_add_pail :: "nat \<Rightarrow> Hat \<Rightarrow> slotref \<Rightarrow> uchar list \<Rightarrow> fault + (ptr \<times> Hat)"
where
  "hat_add_array 0 s parent buff pail = Inl OutOfFuel"
| "hat_add_array (Suc n) s parent buff pail =
     bnd (get_slot s parent) (\<lambda>node.
     bnd (deref_base s (node AND HAT_mask)) (\<lambda>b.
     bnd (HatSize (ucast (type b))) (\<lambda>sz.
       if (aux s = 0 \<or> cnt b < 255) \<and>
          array_need s b (word_of_nat (length buff)) \<le> ucast sz
       then add_in_place s (node AND HAT_mask) b sz buff
       else hat_promote n s parent buff pail)))"
| "hat_promote 0 s parent buff pail = Inl OutOfFuel"
| "hat_promote (Suc n) s parent buff pail =
     bnd (get_slot s parent) (\<lambda>node.
     bnd (deref_base s (node AND HAT_mask)) (\<lambda>b.
     bnd (promote_pick s b (word_of_nat (length buff))) (\<lambda>t.
       if t > HatMax
       then (if pail \<and> HatPailMax \<noteq> 0 then hat_new_pail n s parent buff else Inr (NULL, s))
       else promote_to s parent (node AND HAT_mask) b t buff)))"
| "hat_new_pail 0 s parent buff = Inl OutOfFuel"
| "hat_new_pail (Suc n) s parent buff =
     bnd (get_slot s parent) (\<lambda>node.
     bnd (deref_base s (node AND HAT_mask)) (\<lambda>b.
     bnd (hat_alloc s HAT_pail) (\<lambda>(pail, s1).
     bnd (set_slot s1 parent (pail OR ucast HAT_pail)) (\<lambda>s2.
     bnd (new_pail_loop n s2 (node AND HAT_mask) pail 0 0) (\<lambda>s3.
       hat_add_pail n (hat_free s3 (node AND HAT_mask) (ucast (type b))) parent buff)))))"
| "new_pail_loop 0 s base pail tst k = Inl OutOfFuel"
| "new_pail_loop (Suc n) s base pail tst k =
     bnd (deref_base s base) (\<lambda>b.
       if tst < nxt b
       then
         bnd (key_len (keys b) (unat tst)) (\<lambda>(len, skip).
         bnd (bytes_at (keys b) (unat (tst + skip)) (unat len)) (\<lambda>key.
         bnd (get_slot s (pail, unat (hat_code key mod HatPailMax))) (\<lambda>child.
         bnd (if child \<noteq> 0
              then hat_add_array n s (pail, unat (hat_code key mod HatPailMax)) key False
              else hat_new_array s (pail, unat (hat_code key mod HatPailMax)) key) (\<lambda>(cell, s1).
         bnd (copy_aux s1 cell base (unat k)) (\<lambda>s2.
           new_pail_loop n s2 base pail (tst + skip + len) (k + 1))))))
       else Inr s)"
| "hat_add_pail 0 s parent buff = Inl OutOfFuel"
| "hat_add_pail (Suc n) s parent buff =
     bnd (get_slot s parent) (\<lambda>node.
     bnd (get_slot s (node AND HAT_mask, unat (hat_code buff mod HatPailMax))) (\<lambda>child.
       if child = 0
       then hat_new_array s (node AND HAT_mask, unat (hat_code buff mod HatPailMax)) buff
       else hat_add_array n s (node AND HAT_mask, unat (hat_code buff mod HatPailMax)) buff False))"

  by pat_completeness auto
termination
  by (relation "measure (\<lambda>x. case x of
          Inl (Inl a) \<Rightarrow> fst a | Inl (Inr a) \<Rightarrow> fst a
        | Inr (Inl a) \<Rightarrow> fst a | Inr (Inr (Inl a)) \<Rightarrow> fst a
        | Inr (Inr (Inr a)) \<Rightarrow> fst a)") simp_all


subsection \<open>\<open>keycmp\<close> and \<open>hat_find\<close>\<close>

text \<open>
  \<open>*(HatSlot *)str\<close>: the eight bytes at a position read as one little-endian word.
\<close>

fun le_word :: "uchar list \<Rightarrow> HatSlot" where
  "le_word [] = 0"
| "le_word (b # bs) = ucast b + 256 * le_word bs"

definition load_slot :: "uchar list \<Rightarrow> nat \<Rightarrow> fault + HatSlot" where
  "load_slot str p =
     (if p + HAT_slot_size \<le> length str
      then Inr (le_word (take HAT_slot_size (drop p str)))
      else Inl OutOfBounds)"

text \<open>
  \<open>keycmp\<close>.  \<open>len\<close> is only decremented while it is not zero and only by 8 when it is a
  non-zero multiple of 8, so the \<open>uint\<close> never wraps and is a natural number here.  The
  second loop advances both pointers, here the position \<open>p\<close>.
\<close>

function keycmp_words :: "uchar list \<Rightarrow> uchar list \<Rightarrow> nat \<Rightarrow> nat \<Rightarrow> fault + int" where
  "keycmp_words str1 str2 p len =
     (if len \<noteq> 0
      then bnd (load_slot str1 p) (\<lambda>w1.
           bnd (load_slot str2 p) (\<lambda>w2.
             if w1 \<noteq> w2 then Inr 1
             else keycmp_words str1 str2 (p + HAT_slot_size) (len - HAT_slot_size)))
      else Inr 0)"
  by pat_completeness auto
termination
  by (relation "measure (\<lambda>(str1, str2, p, len). len)") (simp_all add: HAT_slot_size_def)

function keycmp :: "uchar list \<Rightarrow> uchar list \<Rightarrow> nat \<Rightarrow> fault + int" where
  "keycmp str1 str2 len =
     (if len mod HAT_slot_size \<noteq> 0
      then bnd (byte_at str1 (len - 1)) (\<lambda>c1.
           bnd (byte_at str2 (len - 1)) (\<lambda>c2.
             if c1 \<noteq> c2 then Inr 1 else keycmp str1 str2 (len - 1)))
      else keycmp_words str1 str2 0 len)"
  by pat_completeness auto
termination
  by (relation "measure (\<lambda>(str1, str2, len). len)") (auto simp: HAT_slot_size_def)

text \<open>The first \<open>bootlvl\<close> key bytes as an index of the root table; \<open>k\<close> levels are left.\<close>

fun root_index :: "nat \<Rightarrow> uint \<Rightarrow> uchar list \<Rightarrow> nat \<Rightarrow> uint \<times> nat" where
  "root_index 0 triple buff off = (triple, off)"
| "root_index (Suc k) triple buff off =
     (if off < length buff
      then root_index k (triple * 128 + ucast (buff ! off)) buff (off + 1)
      else root_index k (triple * 128) buff off)"

text \<open>
  The key length at \<open>tst\<close> as \<open>hat_find\<close> and \<open>hat_cell\<close> decode it into an \<open>uint\<close>:
  \<open>len = keys[tst++]; if( len > 0x7f ) len += keys[tst++] << 7;\<close>
  The result is the length and the new \<open>tst\<close>.
\<close>

definition find_len :: "uchar list \<Rightarrow> ushort \<Rightarrow> fault + (uint \<times> ushort)" where
  "find_len ks tst =
     bnd (byte_at ks (unat tst)) (\<lambda>b0.
       if b0 > 0x7f
       then bnd (byte_at ks (unat (tst + 1))) (\<lambda>b1.
              Inr (ucast b0 + push_bit 7 (ucast b1), tst + 2))
       else Inr (ucast b0, tst + 1))"

text \<open>
  The result of a match at key number \<open>k\<close> of the array at \<open>base\<close>: the aux slot, or
  \<open>(void *)1\<close> when there are no aux bytes.
\<close>

definition found_slot :: "Hat \<Rightarrow> HatSlot \<Rightarrow> HatBase \<Rightarrow> ushort \<Rightarrow> fault + ptr" where
  "found_slot s base b k =
     (if aux s \<noteq> 0
      then bnd (HatSize (ucast (type b))) (\<lambda>sz. Inr (slot_ptr base sz (unat k + 1) (aux s)))
      else Inr One)"

text \<open>
  The test of one stored key against the rest \<open>key\<close> of the probe (\<open>buff + off\<close>, of
  \<open>max - off\<close> bytes): \<open>if( len == max - off ) if( !keycmp (...) )\<close>.
\<close>

definition key_matches :: "uchar list \<Rightarrow> ushort \<Rightarrow> uint \<Rightarrow> uchar list \<Rightarrow> fault + bool" where
  "key_matches ks tst len key =
     (if len = word_of_nat (length key)
      then bnd (keycmp (drop (unat tst) ks) key (unat len)) (\<lambda>r. Inr (r = 0))
      else Inr False)"

text \<open>The scan of \<open>hat_find\<close> over the keys of one array, with the \<open>Probes\<close> counter.\<close>

function find_array ::
  "nat \<Rightarrow> Hat \<Rightarrow> HatSlot \<Rightarrow> uchar list \<Rightarrow> ushort \<Rightarrow> ushort \<Rightarrow> fault + (ptr \<times> Hat)" where
  "find_array 0 s base key tst k = Inl OutOfFuel"
| "find_array (Suc n) s base key tst k =
     bnd (deref_base s base) (\<lambda>b.
       if tst < nxt b
       then
         bnd (find_len (keys b) tst) (\<lambda>(len, tst1).
         bnd (key_matches (keys b) tst1 len key) (\<lambda>hit.
           if hit
           then bnd (found_slot s base b k) (\<lambda>p. Inr (p, s\<lparr>Probes := Probes s + 1\<rparr>))
           else find_array n (s\<lparr>Probes := Probes s + 1\<rparr>) base key (tst1 + ucast len) (k + 1)))
       else Inr (NULL, s))"
  by pat_completeness auto
termination
  by (relation "measure (\<lambda>(n, s, base, key, tst, k). n)") simp_all

text \<open>Tables read through a node address whose tag says what the node is.\<close>

definition radix_of :: "Hat \<Rightarrow> HatSlot \<Rightarrow> fault + HatSlot list" where
  "radix_of s a =
     (if a = 0 then Inl NullDeref
      else case mem s a of Some (RadixNode t) \<Rightarrow> Inr t | _ \<Rightarrow> Inl WrongNode)"

definition pail_of :: "Hat \<Rightarrow> HatSlot \<Rightarrow> fault + HatSlot list" where
  "pail_of s a =
     (if a = 0 then Inl NullDeref
      else case mem s a of Some (PailNode t) \<Rightarrow> Inr t | _ \<Rightarrow> Inl WrongNode)"

definition slot_at :: "HatSlot list \<Rightarrow> nat \<Rightarrow> fault + HatSlot" where
  "slot_at t i = (if i < length t then Inr (t ! i) else Inl OutOfBounds)"

text \<open>The next key byte, or 0 when the key has ended, and the new offset.\<close>

definition next_ch :: "uchar list \<Rightarrow> nat \<Rightarrow> uchar \<times> nat" where
  "next_ch buff off = (if off < length buff then (buff ! off, off + 1) else (0, off))"

text \<open>
  The \<open>while( next )\<close> loop of \<open>hat_find\<close>.  A tag above \<open>HAT_pail\<close> matches no case of
  the \<open>switch\<close>, and the loop goes on with the same \<open>next\<close>.
\<close>

function hat_find_loop :: "nat \<Rightarrow> Hat \<Rightarrow> HatSlot \<Rightarrow> uchar list \<Rightarrow> nat \<Rightarrow> fault + (ptr \<times> Hat)" where
  "hat_find_loop 0 s next buff off = Inl OutOfFuel"
| "hat_find_loop (Suc n) s next buff off =
     (if next = 0 then Inr (NULL, s)
      else if next AND HAT_type = ucast HAT_array
      then find_array n (s\<lparr>Searches := Searches s + 1\<rparr>) (next AND HAT_mask) (drop off buff) 0 0
      else if next AND HAT_type = ucast HAT_pail
      then bnd (pail_of s (next AND HAT_mask)) (\<lambda>t.
           bnd (slot_at t (unat (hat_code (drop off buff) mod HatPailMax))) (\<lambda>child.
             if child \<noteq> 0 then hat_find_loop n (s\<lparr>Pail := Pail s + 1\<rparr>) child buff off
             else Inr (NULL, s\<lparr>Pail := Pail s + 1\<rparr>)))
      else if next AND HAT_type = ucast HAT_bucket
      then bnd (deref_bucket s (next AND HAT_mask)) (\<lambda>(c, t).
           bnd (slot_at t (unat (hat_code (drop off buff) mod HatBucketSlots))) (\<lambda>child.
             if child \<noteq> 0 then hat_find_loop n (s\<lparr>Bucket := Bucket s + 1\<rparr>) child buff off
             else Inr (NULL, s\<lparr>Bucket := Bucket s + 1\<rparr>)))
      else if next AND HAT_type = ucast HAT_radix
      then bnd (radix_of s (next AND HAT_mask)) (\<lambda>t.
           bnd (slot_at t (unat (fst (next_ch buff off)))) (\<lambda>child.
             hat_find_loop n (s\<lparr>Radix := Radix s + 1\<rparr>) child buff (snd (next_ch buff off))))
      else hat_find_loop n s next buff off)"
  by pat_completeness auto
termination
  by (relation "measure (\<lambda>(n, s, next, buff, off). n)") simp_all

definition hat_find :: "nat \<Rightarrow> Hat \<Rightarrow> uchar list \<Rightarrow> fault + (ptr \<times> Hat)" where
  "hat_find n s buff =
     (let (triple, off) = root_index (unat (bootlvl s)) 0 buff 0
      in bnd (radix_of s (root s)) (\<lambda>t.
         bnd (slot_at t (unat triple)) (\<lambda>next.
           hat_find_loop n s next buff off)))"


subsection \<open>Bursts: \<open>hat_burst_array\<close>, \<open>hat_burst_pail\<close>, \<open>hat_add_bucket\<close>\<close>

text \<open>\<open>memcpy (cell, value, hat->aux)\<close>, which copies nothing when there are no aux bytes.\<close>

definition store_value :: "Hat \<Rightarrow> ptr \<Rightarrow> ptr \<Rightarrow> fault + Hat" where
  "store_value s cell val =
     (if aux s = 0 then Inr s
      else bnd (read_ptr s val (unat (aux s))) (write_ptr s cell))"

text \<open>\<open>bucket->count++\<close>\<close>

definition bucket_incr :: "Hat \<Rightarrow> HatSlot \<Rightarrow> fault + Hat" where
  "bucket_incr s a =
     bnd (deref_bucket s a) (\<lambda>(c, t).
       Inr (s\<lparr>mem := (mem s)(a := Some (BucketNode (c + 1) t))\<rparr>))"

text \<open>
  The loop of \<open>hat_burst_array\<close> over the keys of the old array \<open>base\<close>.  Its test
  \<open>len > 0x7f\<close> on the first prefix byte is the test \<open>len & 0x80\<close> of \<open>key_len\<close>.
\<close>

function burst_array_loop ::
  "nat \<Rightarrow> Hat \<Rightarrow> HatSlot \<Rightarrow> HatSlot \<Rightarrow> ushort \<Rightarrow> ushort \<Rightarrow> fault + Hat" where
  "burst_array_loop 0 s base bucket tst k = Inl OutOfFuel"
| "burst_array_loop (Suc n) s base bucket tst k =
     bnd (deref_base s base) (\<lambda>b.
       if tst < nxt b
       then
         bnd (key_len (keys b) (unat tst)) (\<lambda>(len, skip).
         bnd (bytes_at (keys b) (unat (tst + skip)) (unat len)) (\<lambda>key.
         bnd (get_slot s (bucket, unat (hat_code key mod HatBucketSlots))) (\<lambda>child.
         bnd (if child \<noteq> 0
              then hat_add_array n s (bucket, unat (hat_code key mod HatBucketSlots)) key True
              else hat_new_array s (bucket, unat (hat_code key mod HatBucketSlots)) key)
             (\<lambda>(cell, s1).
         bnd (copy_aux s1 cell base (unat k)) (\<lambda>s2.
         bnd (bucket_incr s2 bucket) (\<lambda>s3.
           burst_array_loop n s3 base bucket (tst + skip + len) (k + 1)))))))
       else Inr s)"
  by pat_completeness auto
termination
  by (relation "measure (\<lambda>(n, s, base, bucket, tst, k). n)") simp_all

definition hat_burst_array :: "nat \<Rightarrow> Hat \<Rightarrow> slotref \<Rightarrow> fault + Hat" where
  "hat_burst_array n s parent =
     bnd (get_slot s parent) (\<lambda>node.
     bnd (deref_base s (node AND HAT_mask)) (\<lambda>b.
     bnd (hat_alloc s HAT_bucket) (\<lambda>(bucket, s1).
     bnd (set_slot s1 parent (bucket OR ucast HAT_bucket)) (\<lambda>s2.
     bnd (burst_array_loop n s2 (node AND HAT_mask) bucket 0 0) (\<lambda>s3.
       Inr (hat_free s3 (node AND HAT_mask) (ucast (type b))))))))"

text \<open>\<open>hat_burst_pail\<close>: the loop over the keys of one array of the old pail.\<close>

function burst_pail_keys ::
  "nat \<Rightarrow> Hat \<Rightarrow> HatSlot \<Rightarrow> HatSlot \<Rightarrow> ushort \<Rightarrow> ushort \<Rightarrow> fault + Hat" where
  "burst_pail_keys 0 s base bucket tst k = Inl OutOfFuel"
| "burst_pail_keys (Suc n) s base bucket tst k =
     bnd (deref_base s base) (\<lambda>b.
       if tst < nxt b
       then
         bnd (key_len (keys b) (unat tst)) (\<lambda>(len, skip).
         bnd (bytes_at (keys b) (unat (tst + skip)) (unat len)) (\<lambda>key.
         bnd (get_slot s (bucket, unat (hat_code key mod HatBucketSlots))) (\<lambda>child.
         bnd (if child \<noteq> 0
              then (if child AND HAT_type = ucast HAT_array
                    then hat_add_array n s (bucket, unat (hat_code key mod HatBucketSlots)) key True
                    else hat_add_pail n s (bucket, unat (hat_code key mod HatBucketSlots)) key)
              else hat_new_array s (bucket, unat (hat_code key mod HatBucketSlots)) key)
             (\<lambda>(cell, s1).
         bnd (copy_aux s1 cell base (unat k)) (\<lambda>s2.
         bnd (bucket_incr s2 bucket) (\<lambda>s3.
           burst_pail_keys n s3 base bucket (tst + skip + len) (k + 1)))))))
       else Inr s)"
  by pat_completeness auto
termination
  by (relation "measure (\<lambda>(n, s, base, bucket, tst, k). n)") simp_all

text \<open>\<open>hat_burst_pail\<close>: the loop over the slots \<open>idx\<close> of the old pail.\<close>

fun burst_pail_slots :: "nat \<Rightarrow> Hat \<Rightarrow> HatSlot \<Rightarrow> HatSlot \<Rightarrow> nat list \<Rightarrow> fault + Hat" where
  "burst_pail_slots n s pail bucket [] = Inr s"
| "burst_pail_slots n s pail bucket (idx # idxs) =
     bnd (pail_of s pail) (\<lambda>t.
     bnd (slot_at t idx) (\<lambda>child.
       if child AND HAT_mask = 0 then burst_pail_slots n s pail bucket idxs
       else
         bnd (burst_pail_keys n s (child AND HAT_mask) bucket 0 0) (\<lambda>s1.
         bnd (deref_base s1 (child AND HAT_mask)) (\<lambda>b.
           burst_pail_slots n (hat_free s1 (child AND HAT_mask) (ucast (type b)))
             pail bucket idxs))))"

definition hat_burst_pail :: "nat \<Rightarrow> Hat \<Rightarrow> slotref \<Rightarrow> fault + Hat" where
  "hat_burst_pail n s parent =
     bnd (get_slot s parent) (\<lambda>node.
     bnd (hat_alloc s HAT_bucket) (\<lambda>(bucket, s1).
     bnd (set_slot s1 parent (bucket OR ucast HAT_bucket)) (\<lambda>s2.
     bnd (burst_pail_slots n s2 (node AND HAT_mask) bucket [0..<unat HatPailMax]) (\<lambda>s3.
       Inr (hat_free s3 (node AND HAT_mask) HAT_pail)))))"

text \<open>\<open>hat_add_bucket\<close>: the result is whether the key was added.\<close>

definition hat_add_bucket ::
  "nat \<Rightarrow> Hat \<Rightarrow> slotref \<Rightarrow> uchar list \<Rightarrow> ptr \<Rightarrow> fault + (bool \<times> Hat)" where
  "hat_add_bucket n s parent buff val =
     bnd (get_slot s parent) (\<lambda>node.
     bnd (deref_bucket s (node AND HAT_mask)) (\<lambda>(c, t).
     bnd (bucket_incr s (node AND HAT_mask)) (\<lambda>s1.
       if c < HatBucketMax
       then
         bnd (slot_at t (unat (hat_code buff mod HatBucketSlots))) (\<lambda>child.
           if child = 0
           then
             bnd (hat_new_array s1 (node AND HAT_mask, unat (hat_code buff mod HatBucketSlots)) buff)
               (\<lambda>(cell, s2).
             bnd (store_value s2 cell val) (\<lambda>s3. Inr (True, s3)))
           else
             bnd (if child AND HAT_type = ucast HAT_array
                  then hat_add_array n s1
                         (node AND HAT_mask, unat (hat_code buff mod HatBucketSlots)) buff True
                  else hat_add_pail n s1
                         (node AND HAT_mask, unat (hat_code buff mod HatBucketSlots)) buff)
               (\<lambda>(cell, s2).
                 if cell \<noteq> NULL then bnd (store_value s2 cell val) (\<lambda>s3. Inr (True, s3))
                 else Inr (False, s2)))
       else Inr (False, s1))))"

subsection \<open>\<open>hat_add_radix\<close> and \<open>hat_burst_bucket\<close>\<close>

text \<open>
  The key length as \<open>hat_burst_bucket\<close> decodes it into its \<open>uchar len\<close>:
  \<open>len = keys[tst++]; if( len > 0x7f ) len &= 0x7f, len += keys[tst++] << 7;\<close>
  The result is the length and the bytes the prefix takes.
\<close>

definition burst_len :: "uchar list \<Rightarrow> nat \<Rightarrow> fault + (uchar \<times> ushort)" where
  "burst_len ks tst =
     bnd (byte_at ks tst) (\<lambda>b0.
       if b0 > 0x7f
       then bnd (byte_at ks (tst + 1)) (\<lambda>b1. Inr ((b0 AND 0x7f) + push_bit 7 b1, 2))
       else Inr (b0, 1))"

text \<open>
  \<open>hat_add_radix\<close> takes the rest of the key as \<open>buff\<close> (of \<open>max\<close> bytes).  When the key
  has ended (\<open>max = 0\<close>) and the slot is taken, the C passes \<open>buff + 1\<close> with the length
  \<open>max - 1\<close>, which wraps: a \<open>BadLength\<close> fault here.  \<open>add_radix_loop\<close> is its
  \<open>do switch ... while( 1 )\<close>.
\<close>

function hat_add_radix :: "nat \<Rightarrow> Hat \<Rightarrow> HatSlot \<Rightarrow> uchar list \<Rightarrow> ptr \<Rightarrow> fault + Hat"
and add_radix_loop :: "nat \<Rightarrow> Hat \<Rightarrow> HatSlot \<Rightarrow> uchar \<Rightarrow> uchar list \<Rightarrow> ptr \<Rightarrow> fault + Hat"
and hat_burst_bucket :: "nat \<Rightarrow> Hat \<Rightarrow> slotref \<Rightarrow> fault + Hat"
and burst_bucket_slots :: "nat \<Rightarrow> Hat \<Rightarrow> HatSlot \<Rightarrow> HatSlot \<Rightarrow> nat \<Rightarrow> fault + Hat"
and burst_bucket_keys :: "nat \<Rightarrow> Hat \<Rightarrow> HatSlot \<Rightarrow> HatSlot \<Rightarrow> ushort \<Rightarrow> ushort \<Rightarrow> fault + Hat"
and burst_bucket_pail :: "nat \<Rightarrow> Hat \<Rightarrow> HatSlot \<Rightarrow> HatSlot \<Rightarrow> nat \<Rightarrow> fault + Hat"
where
  "hat_add_radix 0 s radix buff val = Inl OutOfFuel"
| "hat_add_radix (Suc n) s radix buff val =
     bnd (radix_of s radix) (\<lambda>t.
     bnd (slot_at t (unat (if buff \<noteq> [] then hd buff else 0))) (\<lambda>child.
       if child = 0
       then bnd (hat_new_array s (radix, unat (if buff \<noteq> [] then hd buff else 0)) (tl buff))
              (\<lambda>(cell, s1). store_value s1 cell val)
       else add_radix_loop n s radix (if buff \<noteq> [] then hd buff else 0) buff val))"
| "add_radix_loop 0 s radix ch buff val = Inl OutOfFuel"
| "add_radix_loop (Suc n) s radix ch buff val =
     bnd (radix_of s radix) (\<lambda>t.
     bnd (slot_at t (unat ch)) (\<lambda>child.
       if buff = [] then Inl BadLength
       else if child AND HAT_type = ucast HAT_bucket
       then bnd (hat_add_bucket n s (radix, unat ch) (tl buff) val) (\<lambda>(ok, s1).
              if ok then Inr s1
              else bnd (hat_burst_bucket n s1 (radix, unat ch)) (\<lambda>s2.
                     add_radix_loop n s2 radix ch buff val))
       else if child AND HAT_type = ucast HAT_radix
       then hat_add_radix n s (child AND HAT_mask) (tl buff) val
       else if child AND HAT_type = ucast HAT_array
       then bnd (hat_add_array n s (radix, unat ch) (tl buff) True) (\<lambda>(cell, s1).
              if cell \<noteq> NULL then store_value s1 cell val
              else bnd (hat_burst_array n s1 (radix, unat ch)) (\<lambda>s2.
                     add_radix_loop n s2 radix ch buff val))
       else if child AND HAT_type = ucast HAT_pail
       then bnd (hat_add_pail n s (radix, unat ch) (tl buff)) (\<lambda>(cell, s1).
              if cell \<noteq> NULL then store_value s1 cell val
              else bnd (hat_burst_pail n s1 (radix, unat ch)) (\<lambda>s2.
                     add_radix_loop n s2 radix ch buff val))
       else add_radix_loop n s radix ch buff val))"
| "hat_burst_bucket 0 s parent = Inl OutOfFuel"
| "hat_burst_bucket (Suc n) s parent =
     bnd (get_slot s parent) (\<lambda>node.
     bnd (deref_bucket s (node AND HAT_mask)) (\<lambda>(c, t).
     bnd (hat_alloc (if c < HatBucketMax then s\<lparr>Small := Small s + 1\<rparr> else s) HAT_radix)
       (\<lambda>(radix, s1).
     bnd (set_slot s1 parent (radix OR ucast HAT_radix)) (\<lambda>s2.
     bnd (burst_bucket_slots n s2 (node AND HAT_mask) radix 0) (\<lambda>s3.
       Inr (hat_free s3 (node AND HAT_mask) HAT_bucket))))))"
| "burst_bucket_slots 0 s bucket radix hash = Inl OutOfFuel"
| "burst_bucket_slots (Suc n) s bucket radix hash =
     (if hash < unat HatBucketSlots
      then
        bnd (deref_bucket s bucket) (\<lambda>(c, t).
        bnd (slot_at t hash) (\<lambda>child.
          if child \<noteq> 0 \<and> child AND HAT_type = ucast HAT_array
          then
            bnd (burst_bucket_keys n s (child AND HAT_mask) radix 0 0) (\<lambda>s1.
            bnd (deref_base s1 (child AND HAT_mask)) (\<lambda>b.
              burst_bucket_slots n (hat_free s1 (child AND HAT_mask) (ucast (type b)))
                bucket radix (hash + 1)))
          else if child \<noteq> 0 \<and> child AND HAT_type = ucast HAT_pail
          then
            bnd (burst_bucket_pail n s (child AND HAT_mask) radix 0) (\<lambda>s1.
              burst_bucket_slots n (hat_free s1 (child AND HAT_mask) HAT_pail)
                bucket radix (hash + 1))
          else burst_bucket_slots n s bucket radix (hash + 1)))
      else Inr s)"
| "burst_bucket_keys 0 s base radix tst k = Inl OutOfFuel"
| "burst_bucket_keys (Suc n) s base radix tst k =
     bnd (deref_base s base) (\<lambda>b.
       if tst < nxt b
       then
         bnd (burst_len (keys b) (unat tst)) (\<lambda>(len, skip).
         bnd (bytes_at (keys b) (unat (tst + skip)) (unat len)) (\<lambda>key.
         bnd (HatSize (ucast (type b))) (\<lambda>sz.
         bnd (hat_add_radix n s radix key (slot_ptr base sz (unat k + 1) (aux s))) (\<lambda>s1.
           burst_bucket_keys n s1 base radix (tst + skip + ucast len) (k + 1)))))
       else Inr s)"
| "burst_bucket_pail 0 s pail radix idx = Inl OutOfFuel"
| "burst_bucket_pail (Suc n) s pail radix idx =
     (if idx < unat HatPailMax
      then
        bnd (pail_of s pail) (\<lambda>t.
        bnd (slot_at t idx) (\<lambda>child.
          if child AND HAT_mask = 0 then burst_bucket_pail n s pail radix (idx + 1)
          else
            bnd (burst_bucket_keys n s (child AND HAT_mask) radix 0 0) (\<lambda>s1.
            bnd (deref_base s1 (child AND HAT_mask)) (\<lambda>b.
              burst_bucket_pail n (hat_free s1 (child AND HAT_mask) (ucast (type b)))
                pail radix (idx + 1)))))
      else Inr s)"
  by pat_completeness auto
termination
  by (relation "measure (\<lambda>x. case x of
          Inl (Inl a) \<Rightarrow> fst a | Inl (Inr (Inl a)) \<Rightarrow> fst a
        | Inl (Inr (Inr a)) \<Rightarrow> fst a | Inr (Inl a) \<Rightarrow> fst a
        | Inr (Inr (Inl a)) \<Rightarrow> fst a | Inr (Inr (Inr a)) \<Rightarrow> fst a)") simp_all


subsection \<open>\<open>hat_cell\<close>\<close>

text \<open>
  The scan of \<open>hat_cell\<close> over the keys of one array for a key equal to the rest \<open>key\<close>
  of the new one: the aux slot of the match, if there is one.
\<close>

function cell_scan ::
  "nat \<Rightarrow> Hat \<Rightarrow> HatSlot \<Rightarrow> uchar list \<Rightarrow> ushort \<Rightarrow> ushort \<Rightarrow> fault + ptr option" where
  "cell_scan 0 s base key tst k = Inl OutOfFuel"
| "cell_scan (Suc n) s base key tst k =
     bnd (deref_base s base) (\<lambda>b.
       if tst < nxt b
       then
         bnd (find_len (keys b) tst) (\<lambda>(len, tst1).
         bnd (key_matches (keys b) tst1 len key) (\<lambda>hit.
           if hit then bnd (found_slot s base b k) (\<lambda>p. Inr (Some p))
           else cell_scan n s base key (tst1 + ucast len) (k + 1)))
       else Inr None)"
  by pat_completeness auto
termination
  by (relation "measure (\<lambda>(n, s, base, key, tst, k). n)") simp_all

text \<open>\<open>if( hat->aux ) return cell; else return (void *)0;\<close>\<close>

definition ret_cell :: "Hat \<Rightarrow> ptr \<Rightarrow> ptr" where
  "ret_cell s cell = (if aux s \<noteq> 0 then cell else NULL)"

text \<open>
  What \<open>hat_cell\<close> does with a key that is not in the array or pail at \<open>next\<close>, below the
  bucket at \<open>bucket\<close>: \<open>if( bucket->count++ < HatBucketMax ) if( cell = hat_add_... )\<close>.
  The result is the cell, null when the bucket is full or the key did not fit.
\<close>

definition add_under_bucket ::
  "nat \<Rightarrow> Hat \<Rightarrow> HatSlot \<Rightarrow> slotref \<Rightarrow> uchar list \<Rightarrow> bool \<Rightarrow> fault + (ptr \<times> Hat)" where
  "add_under_bucket n s bucket next key is_array =
     bnd (deref_bucket s bucket) (\<lambda>(c, t).
     bnd (bucket_incr s bucket) (\<lambda>s1.
       if c < HatBucketMax
       then (if is_array then hat_add_array n s1 next key True else hat_add_pail n s1 next key)
       else Inr (NULL, s1)))"

text \<open>
  The loop of \<open>hat_cell\<close> from the label \<open>loop\<close>, and the code behind it.  \<open>next\<close> is the
  slot looked at; \<open>parent\<close> is the slot of the last bucket passed, with the address of
  that bucket (the variable \<open>bucket\<close>), or \<open>None\<close> for a null \<open>parent\<close>.
\<close>

function hat_cell_loop ::
  "nat \<Rightarrow> Hat \<Rightarrow> slotref \<Rightarrow> (slotref \<times> HatSlot) option \<Rightarrow> uchar list \<Rightarrow> nat \<Rightarrow>
     fault + (ptr \<times> Hat)" where
  "hat_cell_loop 0 s next parent buff off = Inl OutOfFuel"
| "hat_cell_loop (Suc n) s next parent buff off =
     bnd (get_slot s next) (\<lambda>node.
       if node = 0
       then
         (case parent of
            Some (pref, bucket) \<Rightarrow>
              bnd (deref_bucket s bucket) (\<lambda>(c, t).
              bnd (bucket_incr s bucket) (\<lambda>s1.
                if c < HatBucketMax
                then
                  bnd (hat_new_array s1 next (drop off buff)) (\<lambda>(cell, s2).
                    if cell \<noteq> NULL then Inr (ret_cell s2 cell, s2)
                    else bnd (hat_burst_bucket n s2 pref) (\<lambda>s3.
                           hat_cell_loop n s3 pref None buff off))
                else
                  bnd (hat_new_array s1 next (drop off buff)) (\<lambda>(cell, s2).
                    Inr (ret_cell s2 cell, s2))))
          | None \<Rightarrow>
              bnd (hat_new_array s next (drop off buff)) (\<lambda>(cell, s1).
                Inr (ret_cell s1 cell, s1)))
       else if node AND HAT_type = ucast HAT_array
       then
         bnd (cell_scan n s (node AND HAT_mask) (drop off buff) 0 0) (\<lambda>r.
           case r of
             Some p \<Rightarrow> Inr (p, s)
           | None \<Rightarrow>
               (case parent of
                  Some (pref, bucket) \<Rightarrow>
                    bnd (add_under_bucket n s bucket next (drop off buff) True) (\<lambda>(cell, s1).
                      if cell \<noteq> NULL then Inr (ret_cell s1 cell, s1)
                      else bnd (hat_burst_bucket n s1 pref) (\<lambda>s2.
                             hat_cell_loop n s2 pref None buff off))
                | None \<Rightarrow>
                    bnd (hat_add_array n s next (drop off buff) True) (\<lambda>(cell, s1).
                      if cell \<noteq> NULL then Inr (ret_cell s1 cell, s1)
                      else bnd (hat_burst_array n s1 next) (\<lambda>s2.
                             hat_cell_loop n s2 next None buff off))))
       else if node AND HAT_type = ucast HAT_pail
       then
         bnd (pail_of s (node AND HAT_mask)) (\<lambda>t.
         bnd (slot_at t (unat (hat_code (drop off buff) mod HatPailMax))) (\<lambda>child.
         bnd (if child AND HAT_mask \<noteq> 0
              then cell_scan n s (child AND HAT_mask) (drop off buff) 0 0
              else Inr None) (\<lambda>r.
           case r of
             Some p \<Rightarrow> Inr (p, s)
           | None \<Rightarrow>
               (case parent of
                  Some (pref, bucket) \<Rightarrow>
                    bnd (add_under_bucket n s bucket next (drop off buff) False) (\<lambda>(cell, s1).
                      if cell \<noteq> NULL then Inr (ret_cell s1 cell, s1)
                      else bnd (hat_burst_bucket n s1 pref) (\<lambda>s2.
                             hat_cell_loop n s2 pref None buff off))
                | None \<Rightarrow>
                    bnd (hat_add_pail n s next (drop off buff)) (\<lambda>(cell, s1).
                      if cell \<noteq> NULL then Inr (ret_cell s1 cell, s1)
                      else bnd (hat_burst_pail n s1 next) (\<lambda>s2.
                             hat_cell_loop n s2 next None buff off))))))
       else if node AND HAT_type = ucast HAT_bucket
       then
         hat_cell_loop n s
           (node AND HAT_mask, unat (hat_code (drop off buff) mod HatBucketSlots))
           (Some (next, node AND HAT_mask)) buff off
       else if node AND HAT_type = ucast HAT_radix
       then
         hat_cell_loop n s (node AND HAT_mask, unat (fst (next_ch buff off))) parent buff
           (snd (next_ch buff off))
       else hat_cell_loop n s next parent buff off)"
  by pat_completeness auto
termination
  by (relation "measure (\<lambda>(n, s, next, parent, buff, off). n)") simp_all

definition hat_cell :: "nat \<Rightarrow> Hat \<Rightarrow> uchar list \<Rightarrow> fault + (ptr \<times> Hat)" where
  "hat_cell n s buff =
     (let (triple, off) = root_index (unat (bootlvl s)) 0 buff 0
      in hat_cell_loop n s (root s, unat triple) None buff off)"


section \<open>The cursor\<close>

text \<open>
  \<open>HatSort\<close> and \<open>HatCursor\<close>.  The fields \<open>cnt\<close>, \<open>idx\<close>, \<open>top\<close>, \<open>aux\<close>, \<open>next\<close> and
  \<open>keys\<close> of the cursor carry the prefix \<open>cur_\<close> here.  \<open>cur_keys\<close> is the sort array of
  \<open>HatBucketMax\<close> entries behind the cursor, by index; \<open>hat_cursor\<close> zeroes it.  \<open>draws\<close>
  holds the values the next calls of \<open>rand\<close> return.
\<close>

record HatSort =
  key :: ptr
  slot :: ptr

record HatCursor =
  cur_cnt :: int
  cur_idx :: int
  cur_top :: int
  cur_aux :: ushort
  rootlvl :: int
  maxroot :: uint
  rootscan :: uint
  cur_next :: "HatSlot list"
  scan :: "uchar list"
  cur_keys :: "int \<Rightarrow> HatSort"
  draws :: "int list"

definition sort_get :: "(int \<Rightarrow> HatSort) \<Rightarrow> int \<Rightarrow> fault + HatSort" where
  "sort_get ks i = (if 0 \<le> i \<and> i < uint HatBucketMax then Inr (ks i) else Inl OutOfBounds)"

definition sort_set :: "(int \<Rightarrow> HatSort) \<Rightarrow> int \<Rightarrow> HatSort \<Rightarrow> fault + (int \<Rightarrow> HatSort)" where
  "sort_set ks i e = (if 0 \<le> i \<and> i < uint HatBucketMax then Inr (ks(i := e)) else Inl OutOfBounds)"

text \<open>\<open>*swap = x[i]; x[i] = x[j]; x[j] = *swap;\<close>\<close>

definition sort_swap :: "(int \<Rightarrow> HatSort) \<Rightarrow> int \<Rightarrow> int \<Rightarrow> fault + (int \<Rightarrow> HatSort)" where
  "sort_swap ks i j =
     bnd (sort_get ks i) (\<lambda>ei.
     bnd (sort_get ks j) (\<lambda>ej.
       Inr (ks(i := ej, j := ei))))"

text \<open>The byte \<open>p[i]\<close> behind a key pointer.\<close>

definition ptr_byte :: "Hat \<Rightarrow> ptr \<Rightarrow> nat \<Rightarrow> fault + uchar" where
  "ptr_byte s p i =
     (case p of
        Cell a off \<Rightarrow> bnd (read_ptr s (Cell a (off + i)) 1) (\<lambda>bs. Inr (hd bs))
      | _ \<Rightarrow> Inl NullDeref)"

subsection \<open>\<open>hat_qsort\<close>\<close>

text \<open>
  The length of the key behind \<open>p\<close> and the size of its prefix, as the quicksort part
  decodes it into an \<open>ushort\<close>; and the byte of the key at depth \<open>o\<close>, 0 behind its end.
\<close>

definition sort_len :: "Hat \<Rightarrow> ptr \<Rightarrow> fault + (ushort \<times> nat)" where
  "sort_len s p =
     bnd (ptr_byte s p 0) (\<lambda>b0.
       if b0 AND 0x80 \<noteq> 0
       then bnd (ptr_byte s p 1) (\<lambda>b1. Inr (ucast (b0 AND 0x7f) + push_bit 7 (ucast b1), 2))
       else Inr (ucast b0, 1))"

definition sort_ch :: "Hat \<Rightarrow> ptr \<Rightarrow> uchar \<Rightarrow> fault + uchar" where
  "sort_ch s p o' =
     bnd (sort_len s p) (\<lambda>(len, skip).
       if uint len > uint o' then ptr_byte s p (unat o' + skip) else Inr 0)"

text \<open>The two inner loops and the outer loop of the three-way partition.\<close>

function qs_left ::
  "nat \<Rightarrow> Hat \<Rightarrow> (int \<Rightarrow> HatSort) \<Rightarrow> int \<Rightarrow> uchar \<Rightarrow> uchar \<Rightarrow> int \<Rightarrow> int \<Rightarrow> int \<Rightarrow>
     fault + ((int \<Rightarrow> HatSort) \<times> int \<times> int)" where
  "qs_left 0 s ks x pivot o' a b c = Inl OutOfFuel"
| "qs_left (Suc n) s ks x pivot o' a b c =
     (if b \<le> c
      then bnd (sort_get ks (x + b)) (\<lambda>e.
           bnd (sort_ch s (key e) o') (\<lambda>chb.
             if chb > pivot then Inr (ks, a, b)
             else if chb = pivot
             then bnd (sort_swap ks (x + a) (x + b)) (\<lambda>ks1.
                    qs_left n s ks1 x pivot o' (a + 1) (b + 1) c)
             else qs_left n s ks x pivot o' a (b + 1) c))
      else Inr (ks, a, b))"
  by pat_completeness auto
termination
  by (relation "measure (\<lambda>(n, s, ks, x, pivot, o', a, b, c). n)") simp_all

function qs_right ::
  "nat \<Rightarrow> Hat \<Rightarrow> (int \<Rightarrow> HatSort) \<Rightarrow> int \<Rightarrow> uchar \<Rightarrow> uchar \<Rightarrow> int \<Rightarrow> int \<Rightarrow> int \<Rightarrow>
     fault + ((int \<Rightarrow> HatSort) \<times> int \<times> int)" where
  "qs_right 0 s ks x pivot o' b c d = Inl OutOfFuel"
| "qs_right (Suc n) s ks x pivot o' b c d =
     (if b \<le> c
      then bnd (sort_get ks (x + c)) (\<lambda>e.
           bnd (sort_ch s (key e) o') (\<lambda>chc.
             if chc < pivot then Inr (ks, c, d)
             else if chc = pivot
             then bnd (sort_swap ks (x + c) (x + d)) (\<lambda>ks1.
                    qs_right n s ks1 x pivot o' b (c - 1) (d - 1))
             else qs_right n s ks x pivot o' b (c - 1) d))
      else Inr (ks, c, d))"
  by pat_completeness auto
termination
  by (relation "measure (\<lambda>(n, s, ks, x, pivot, o', b, c, d). n)") simp_all

function qs_part ::
  "nat \<Rightarrow> Hat \<Rightarrow> (int \<Rightarrow> HatSort) \<Rightarrow> int \<Rightarrow> uchar \<Rightarrow> uchar \<Rightarrow> int \<Rightarrow> int \<Rightarrow> int \<Rightarrow> int \<Rightarrow>
     fault + ((int \<Rightarrow> HatSort) \<times> int \<times> int \<times> int \<times> int)" where
  "qs_part 0 s ks x pivot o' a b c d = Inl OutOfFuel"
| "qs_part (Suc n) s ks x pivot o' a b c d =
     bnd (qs_left n s ks x pivot o' a b c) (\<lambda>(ks1, a1, b1).
     bnd (qs_right n s ks1 x pivot o' b1 c d) (\<lambda>(ks2, c1, d1).
       if b1 > c1 then Inr (ks2, a1, b1, c1, d1)
       else bnd (sort_swap ks2 (x + b1) (x + c1)) (\<lambda>ks3.
              qs_part n s ks3 x pivot o' a1 (b1 + 1) (c1 - 1) d1)))"
  by pat_completeness auto
termination
  by (relation "measure (\<lambda>(n, s, ks, x, pivot, o', a, b, c, d). n)") simp_all

function vecswap ::
  "nat \<Rightarrow> (int \<Rightarrow> HatSort) \<Rightarrow> int \<Rightarrow> int \<Rightarrow> int \<Rightarrow> fault + (int \<Rightarrow> HatSort)" where
  "vecswap 0 ks i j n = Inl OutOfFuel"
| "vecswap (Suc f) ks i j n =
     (if n \<noteq> 0 then bnd (sort_swap ks i j) (\<lambda>ks1. vecswap f ks1 (i + 1) (j + 1) (n - 1))
      else Inr ks)"
  by pat_completeness auto
termination
  by (relation "measure (\<lambda>(f, ks, i, j, n). f)") simp_all

text \<open>
  The insertion sort of at most 10 entries.  It decodes the two key lengths into the
  \<open>uchar\<close> variables \<open>chb\<close> and \<open>chc\<close>.
\<close>

definition ins_len :: "Hat \<Rightarrow> ptr \<Rightarrow> fault + (uchar \<times> nat)" where
  "ins_len s p =
     bnd (ptr_byte s p 0) (\<lambda>b0.
       if b0 AND 0x80 \<noteq> 0
       then bnd (ptr_byte s p 1) (\<lambda>b1. Inr ((b0 AND 0x7f) + push_bit 7 b1, 2))
       else Inr (b0, 1))"

text \<open>
  \<open>while( r < chb && r < chc ) if( d = x[b-1].key[r+skipb] - x[b].key[r+skipc] ) break;
  else r++;\<close> with the value of \<open>d\<close> as result.
\<close>

function ins_cmp ::
  "nat \<Rightarrow> Hat \<Rightarrow> ptr \<Rightarrow> nat \<Rightarrow> uchar \<Rightarrow> ptr \<Rightarrow> nat \<Rightarrow> uchar \<Rightarrow> int \<Rightarrow> fault + int" where
  "ins_cmp 0 s p skipb chb q skipc chc r = Inl OutOfFuel"
| "ins_cmp (Suc n) s p skipb chb q skipc chc r =
     (if r < uint chb \<and> r < uint chc
      then bnd (ptr_byte s p (nat r + skipb)) (\<lambda>cb.
           bnd (ptr_byte s q (nat r + skipc)) (\<lambda>cc.
             if uint cb - uint cc \<noteq> 0 then Inr (uint cb - uint cc)
             else ins_cmp n s p skipb chb q skipc chc (r + 1)))
      else Inr 0)"
  by pat_completeness auto
termination
  by (relation "measure (\<lambda>(n, s, p, skipb, chb, q, skipc, chc, r). n)") simp_all

function ins_inner ::
  "nat \<Rightarrow> Hat \<Rightarrow> (int \<Rightarrow> HatSort) \<Rightarrow> int \<Rightarrow> uchar \<Rightarrow> int \<Rightarrow> fault + (int \<Rightarrow> HatSort)" where
  "ins_inner 0 s ks x o' b = Inl OutOfFuel"
| "ins_inner (Suc n) s ks x o' b =
     (if b > 0
      then bnd (sort_get ks (x + b - 1)) (\<lambda>e1.
           bnd (sort_get ks (x + b)) (\<lambda>e2.
           bnd (ins_len s (key e1)) (\<lambda>(chb, skipb).
           bnd (ins_len s (key e2)) (\<lambda>(chc, skipc).
           bnd (ins_cmp n s (key e1) skipb chb (key e2) skipc chc (uint o')) (\<lambda>d.
           bnd (if d > 0 \<or> (d = 0 \<and> chb > chc) then sort_swap ks (x + b) (x + b - 1)
                else Inr ks) (\<lambda>ks1.
             ins_inner n s ks1 x o' (b - 1)))))))
      else Inr ks)"
  by pat_completeness auto
termination
  by (relation "measure (\<lambda>(n, s, ks, x, o', b). n)") simp_all

function ins_outer ::
  "nat \<Rightarrow> Hat \<Rightarrow> (int \<Rightarrow> HatSort) \<Rightarrow> int \<Rightarrow> int \<Rightarrow> uchar \<Rightarrow> int \<Rightarrow> fault + (int \<Rightarrow> HatSort)" where
  "ins_outer 0 s ks x n o' a = Inl OutOfFuel"
| "ins_outer (Suc f) s ks x n o' a =
     (if a < n then bnd (ins_inner f s ks x o' a) (\<lambda>ks1. ins_outer f s ks1 x n o' (a + 1))
      else Inr ks)"
  by pat_completeness auto
termination
  by (relation "measure (\<lambda>(f, s, ks, x, n, o', a). f)") simp_all

text \<open>
  \<open>hat_qsort (x, n, o)\<close> on the entries from index \<open>x\<close> of the sort array.  \<open>rand ()\<close> takes
  the head of the draws, which is not negative.  The result is the sort array and the
  draws left.
\<close>

function hat_qsort ::
  "nat \<Rightarrow> Hat \<Rightarrow> (int \<Rightarrow> HatSort) \<Rightarrow> int list \<Rightarrow> int \<Rightarrow> int \<Rightarrow> uchar \<Rightarrow>
     fault + ((int \<Rightarrow> HatSort) \<times> int list)" where
  "hat_qsort 0 s ks dr x n o' = Inl OutOfFuel"
| "hat_qsort (Suc f) s ks dr x n o' =
     (if n > 10
      then
        (case dr of
           [] \<Rightarrow> Inl NoRandom
         | r0 # dr1 \<Rightarrow>
             bnd (sort_swap ks x (x + r0 mod n)) (\<lambda>ks1.
             bnd (sort_get ks1 x) (\<lambda>e0.
             bnd (sort_ch s (key e0) o') (\<lambda>pivot.
             bnd (qs_part f s ks1 x pivot o' 1 1 (n - 1) (n - 1)) (\<lambda>(ks2, a, b, c, d).
             bnd (vecswap f ks2 x (x + b - min a (b - a)) (min a (b - a))) (\<lambda>ks3.
             bnd (vecswap f ks3 (x + b) (x + n - min (d - c) (n - d - 1))
                    (min (d - c) (n - d - 1))) (\<lambda>ks4.
             bnd (if d - c \<noteq> 0 then hat_qsort f s ks4 dr1 (x + n - (d - c)) (d - c) o'
                  else Inr (ks4, dr1)) (\<lambda>(ks5, dr2).
             bnd (if b - a \<noteq> 0 then hat_qsort f s ks5 dr2 x (b - a) o'
                  else Inr (ks5, dr2)) (\<lambda>(ks6, dr3).
             bnd (sort_get ks6 (x + (b - a))) (\<lambda>er.
             bnd (sort_len s (key er)) (\<lambda>(len, skip).
               if uint len = uint o' then Inr (ks6, dr3)
               else hat_qsort f s ks6 dr3 (x + (b - a)) (n + a - d - 1) (o' + 1))))))))))))
      else bnd (ins_outer f s ks x n o' 1) (\<lambda>ks1. Inr (ks1, dr)))"
  by pat_completeness auto
termination
  by (relation "measure (\<lambda>(f, s, ks, dr, x, n, o'). f)") simp_all


subsection \<open>\<open>hat_strip_array\<close>, \<open>hat_strip_pail\<close>, \<open>hat_sort\<close>\<close>

text \<open>
  The loop of \<open>hat_strip_array\<close>; \<open>lst\<close> is the index in the sort array that the
  argument \<open>list\<close> points to.  The result is the sort array and \<open>cnt\<close>.
\<close>

function strip_loop ::
  "nat \<Rightarrow> Hat \<Rightarrow> ushort \<Rightarrow> HatSlot \<Rightarrow> (int \<Rightarrow> HatSort) \<Rightarrow> int \<Rightarrow> ushort \<Rightarrow> ushort \<Rightarrow>
     fault + ((int \<Rightarrow> HatSort) \<times> ushort)" where
  "strip_loop 0 s caux base ks lst tst k = Inl OutOfFuel"
| "strip_loop (Suc n) s caux base ks lst tst k =
     bnd (deref_base s base) (\<lambda>b.
     bnd (HatSize (ucast (type b))) (\<lambda>sz.
       if tst < nxt b
       then
         bnd (sort_set ks (lst + uint k)
                \<lparr>key = Cell base (sizeof_HatBase + unat tst),
                 slot = slot_ptr base sz (unat k + 1) (ucast caux)\<rparr>) (\<lambda>ks1.
         bnd (key_len (keys b) (unat tst)) (\<lambda>(len, skip).
           strip_loop n s caux base ks1 lst (tst + skip + len) (k + 1)))
       else Inr (ks, k)))"
  by pat_completeness auto
termination
  by (relation "measure (\<lambda>(n, s, caux, base, ks, lst, tst, k). n)") simp_all

definition hat_strip_array ::
  "nat \<Rightarrow> Hat \<Rightarrow> ushort \<Rightarrow> HatSlot \<Rightarrow> (int \<Rightarrow> HatSort) \<Rightarrow> int \<Rightarrow>
     fault + ((int \<Rightarrow> HatSort) \<times> int)" where
  "hat_strip_array n s caux node ks lst =
     bnd (strip_loop n s caux (node AND HAT_mask) ks lst 0 0) (\<lambda>(ks1, k). Inr (ks1, uint k))"

text \<open>The slots \<open>0 .. n - 1\<close> of a table, in this order.\<close>

definition table_prefix :: "HatSlot list \<Rightarrow> uint \<Rightarrow> fault + HatSlot list" where
  "table_prefix t n = (if unat n \<le> length t then Inr (take (unat n) t) else Inl OutOfBounds)"

text \<open>
  The loop of \<open>hat_strip_pail\<close> over the slots of the pail, here the list of the slots
  still to visit: every array is stripped to the same \<open>list\<close>, and \<open>total\<close> adds up the
  counts.
\<close>

fun strip_pail_loop ::
  "nat \<Rightarrow> Hat \<Rightarrow> ushort \<Rightarrow> (int \<Rightarrow> HatSort) \<Rightarrow> int \<Rightarrow> uint \<Rightarrow> HatSlot list \<Rightarrow>
     fault + ((int \<Rightarrow> HatSort) \<times> uint)" where
  "strip_pail_loop n s caux ks lst tot [] = Inr (ks, tot)"
| "strip_pail_loop n s caux ks lst tot (child # rest) =
     (if child \<noteq> 0
      then bnd (hat_strip_array n s caux child ks lst) (\<lambda>(ks1, k).
             strip_pail_loop n s caux ks1 lst (tot + word_of_int k) rest)
      else strip_pail_loop n s caux ks lst tot rest)"

definition hat_strip_pail ::
  "nat \<Rightarrow> Hat \<Rightarrow> ushort \<Rightarrow> HatSlot \<Rightarrow> (int \<Rightarrow> HatSort) \<Rightarrow> int \<Rightarrow>
     fault + ((int \<Rightarrow> HatSort) \<times> int)" where
  "hat_strip_pail n s caux node ks lst =
     bnd (pail_of s (node AND HAT_mask)) (\<lambda>t.
     bnd (table_prefix t HatPailMax) (\<lambda>sl.
     bnd (strip_pail_loop n s caux ks lst 0 sl) (\<lambda>(ks1, tot).
       Inr (ks1, sint tot))))"

text \<open>
  The loop of \<open>hat_sort\<close> over the slots of a bucket, here the list of the slots still
  to visit, with \<open>cursor->cnt\<close>.
\<close>

fun sort_bucket_loop ::
  "nat \<Rightarrow> Hat \<Rightarrow> ushort \<Rightarrow> (int \<Rightarrow> HatSort) \<Rightarrow> int \<Rightarrow> HatSlot list \<Rightarrow>
     fault + ((int \<Rightarrow> HatSort) \<times> int)" where
  "sort_bucket_loop n s caux ks k [] = Inr (ks, k)"
| "sort_bucket_loop n s caux ks k (child # rest) =
     (if child AND HAT_type = ucast HAT_array
      then bnd (hat_strip_array n s caux child ks k) (\<lambda>(ks1, k1).
             sort_bucket_loop n s caux ks1 (k + k1) rest)
      else if child AND HAT_type = ucast HAT_pail
      then bnd (hat_strip_pail n s caux child ks k) (\<lambda>(ks1, k1).
             sort_bucket_loop n s caux ks1 (k + k1) rest)
      else sort_bucket_loop n s caux ks k rest)"

text \<open>\<open>cursor->next[i]\<close> and \<open>cursor->scan[i]\<close>, arrays of 256 entries.\<close>

definition stack_get :: "'a list \<Rightarrow> int \<Rightarrow> fault + 'a" where
  "stack_get xs i = (if 0 \<le> i \<and> nat i < length xs then Inr (xs ! nat i) else Inl OutOfBounds)"

definition stack_set :: "'a list \<Rightarrow> int \<Rightarrow> 'a \<Rightarrow> fault + 'a list" where
  "stack_set xs i v =
     (if 0 \<le> i \<and> nat i < length xs then Inr (xs[nat i := v]) else Inl OutOfBounds)"

text \<open>\<open>cursor->next[++cursor->top] = v\<close>\<close>

definition push :: "HatCursor \<Rightarrow> HatSlot \<Rightarrow> fault + HatCursor" where
  "push c v =
     bnd (stack_set (cur_next c) (cur_top c + 1) v) (\<lambda>st.
       Inr (c\<lparr>cur_top := cur_top c + 1, cur_next := st\<rparr>))"

text \<open>\<open>cursor->scan[cursor->top] = ch; cursor->next[++cursor->top] = v;\<close>\<close>

definition push_scan :: "HatCursor \<Rightarrow> uchar \<Rightarrow> HatSlot \<Rightarrow> fault + HatCursor" where
  "push_scan c ch v =
     bnd (stack_set (scan c) (cur_top c) ch) (\<lambda>sc. push (c\<lparr>scan := sc\<rparr>) v)"

definition hat_sort :: "nat \<Rightarrow> Hat \<Rightarrow> HatCursor \<Rightarrow> fault + HatCursor" where
  "hat_sort n s c =
     bnd (stack_get (cur_next c) (cur_top c)) (\<lambda>node.
     bnd (if node AND HAT_type = ucast HAT_array
          then hat_strip_array n s (cur_aux c) node (cur_keys c) 0
          else if node AND HAT_type = ucast HAT_pail
          then hat_strip_pail n s (cur_aux c) node (cur_keys c) 0
          else if node AND HAT_type = ucast HAT_bucket
          then bnd (deref_bucket s (node AND HAT_mask)) (\<lambda>(cn, t).
               bnd (table_prefix t HatBucketSlots) (\<lambda>sl.
                 sort_bucket_loop n s (cur_aux c) (cur_keys c) 0 sl))
          else Inr (cur_keys c, cur_cnt c)) (\<lambda>(ks, k).
     bnd (hat_qsort n s ks (draws c) 0 k 0) (\<lambda>(ks1, dr).
       Inr (c\<lparr>cur_keys := ks1, cur_cnt := k, draws := dr\<rparr>))))"

subsection \<open>\<open>hat_cursor\<close>, \<open>hat_nxt\<close>, \<open>hat_prv\<close>, \<open>hat_last\<close>\<close>

definition hat_cursor :: "Hat \<Rightarrow> int list \<Rightarrow> HatCursor" where
  "hat_cursor s dr =
     \<lparr>cur_cnt = 0, cur_idx = 0, cur_top = 0, cur_aux = ucast (aux s),
      rootlvl = uint (bootlvl s), maxroot = 128 ^ unat (bootlvl s), rootscan = 0,
      cur_next = (root s) # replicate 255 0, scan = replicate 256 0,
      cur_keys = (\<lambda>i. \<lparr>key = NULL, slot = NULL\<rparr>), draws = dr\<rparr>"

text \<open>The first index from \<open>idx\<close> below \<open>lim\<close> whose slot is taken.\<close>

function scan_up :: "HatSlot list \<Rightarrow> nat \<Rightarrow> nat \<Rightarrow> fault + nat option" where
  "scan_up t idx lim =
     (if idx < lim
      then bnd (slot_at t idx) (\<lambda>v. if v \<noteq> 0 then Inr (Some idx) else scan_up t (idx + 1) lim)
      else Inr None)"
  by pat_completeness auto
termination
  by (relation "measure (\<lambda>(t, idx, lim). lim - idx)") simp_all

text \<open>The last index below \<open>idx\<close> whose slot is taken: \<open>while( idx-- ) if( radix[idx] )\<close>.\<close>

fun scan_down :: "HatSlot list \<Rightarrow> nat \<Rightarrow> fault + nat option" where
  "scan_down t 0 = Inr None"
| "scan_down t (Suc idx) =
     bnd (slot_at t idx) (\<lambda>v. if v \<noteq> 0 then Inr (Some idx) else scan_down t idx)"

text \<open>
  The code at the label \<open>loop\<close> of \<open>hat_nxt\<close> (\<open>up\<close>) and of \<open>hat_prv\<close> and \<open>hat_last\<close>:
  through radix nodes by the first, or the last, slot taken, down to a node that is
  sorted.
\<close>

function descend :: "nat \<Rightarrow> Hat \<Rightarrow> bool \<Rightarrow> HatCursor \<Rightarrow> fault + HatCursor" where
  "descend 0 s up c = Inl OutOfFuel"
| "descend (Suc n) s up c =
     bnd (stack_get (cur_next c) (cur_top c)) (\<lambda>node.
       if node AND HAT_type = ucast HAT_radix
       then bnd (radix_of s (node AND HAT_mask)) (\<lambda>t.
            bnd (if up then scan_up t 0 128 else scan_down t 128) (\<lambda>r.
              case r of
                Some ch \<Rightarrow>
                  bnd (slot_at t ch) (\<lambda>v.
                  bnd (push_scan c (word_of_nat ch) v) (\<lambda>c1. descend n s up c1))
              | None \<Rightarrow> hat_sort n s c))
       else hat_sort n s c)"
  by pat_completeness auto
termination
  by (relation "measure (\<lambda>(n, s, up, c). n)") simp_all

text \<open>
  \<open>cursor->scan[top] = idx\<close> or \<open>cursor->rootscan = idx\<close>, then
  \<open>cursor->next[++cursor->top] = radix[idx]\<close>.
\<close>

definition enter :: "HatCursor \<Rightarrow> nat \<Rightarrow> HatSlot \<Rightarrow> fault + HatCursor" where
  "enter c idx v =
     (if cur_top c \<noteq> 0 then push_scan c (word_of_nat idx) v
      else push (c\<lparr>rootscan := word_of_nat idx\<rparr>) v)"

text \<open>The scan index saved for the level \<open>cursor->top\<close>.\<close>

definition saved_idx :: "HatCursor \<Rightarrow> fault + nat" where
  "saved_idx c =
     (if cur_top c \<noteq> 0 then bnd (stack_get (scan c) (cur_top c)) (\<lambda>ch. Inr (unat ch))
      else Inr (unat (rootscan c)))"

text \<open>The \<open>while( --cursor->top >= 0 )\<close> loop of \<open>hat_nxt\<close>.\<close>

function nxt_pop :: "nat \<Rightarrow> Hat \<Rightarrow> HatCursor \<Rightarrow> fault + (bool \<times> HatCursor)" where
  "nxt_pop 0 s c = Inl OutOfFuel"
| "nxt_pop (Suc n) s c =
     (if cur_top c - 1 \<ge> 0
      then
        bnd (stack_get (cur_next c) (cur_top c - 1)) (\<lambda>node.
        bnd (radix_of s (node AND HAT_mask)) (\<lambda>t.
        bnd (saved_idx (c\<lparr>cur_top := cur_top c - 1\<rparr>)) (\<lambda>idx.
        bnd (scan_up t (idx + 1)
               (if cur_top c - 1 \<noteq> 0 then 128 else unat (maxroot c))) (\<lambda>r.
          case r of
            Some i \<Rightarrow>
              bnd (slot_at t i) (\<lambda>v.
              bnd (enter (c\<lparr>cur_top := cur_top c - 1\<rparr>) i v) (\<lambda>c1.
              bnd (descend n s True c1) (\<lambda>c2. Inr (True, c2\<lparr>cur_idx := 0\<rparr>))))
          | None \<Rightarrow> nxt_pop n s (c\<lparr>cur_top := cur_top c - 1\<rparr>)))))
      else Inr (False, c\<lparr>cur_top := cur_top c - 1\<rparr>))"
  by pat_completeness auto
termination
  by (relation "measure (\<lambda>(n, s, c). n)") simp_all

definition hat_nxt :: "nat \<Rightarrow> Hat \<Rightarrow> HatCursor \<Rightarrow> fault + (bool \<times> HatCursor)" where
  "hat_nxt n s c =
     (if cur_idx c + 1 < cur_cnt c then Inr (True, c\<lparr>cur_idx := cur_idx c + 1\<rparr>)
      else nxt_pop n s (c\<lparr>cur_idx := cur_idx c + 1\<rparr>))"

text \<open>The \<open>while( --cursor->top >= 0 )\<close> loop of \<open>hat_prv\<close>.\<close>

function prv_pop :: "nat \<Rightarrow> Hat \<Rightarrow> HatCursor \<Rightarrow> fault + (bool \<times> HatCursor)" where
  "prv_pop 0 s c = Inl OutOfFuel"
| "prv_pop (Suc n) s c =
     (if cur_top c - 1 \<ge> 0
      then
        bnd (stack_get (cur_next c) (cur_top c - 1)) (\<lambda>node.
        bnd (radix_of s (node AND HAT_mask)) (\<lambda>t.
        bnd (saved_idx (c\<lparr>cur_top := cur_top c - 1\<rparr>)) (\<lambda>idx.
        bnd (scan_down t idx) (\<lambda>r.
          case r of
            Some i \<Rightarrow>
              bnd (slot_at t i) (\<lambda>v.
              bnd (enter (c\<lparr>cur_top := cur_top c - 1\<rparr>) i v) (\<lambda>c1.
              bnd (descend n s False c1) (\<lambda>c2. Inr (True, c2\<lparr>cur_idx := cur_cnt c2 - 1\<rparr>))))
          | None \<Rightarrow> prv_pop n s (c\<lparr>cur_top := cur_top c - 1\<rparr>)))))
      else Inr (False, c\<lparr>cur_top := cur_top c - 1\<rparr>))"
  by pat_completeness auto
termination
  by (relation "measure (\<lambda>(n, s, c). n)") simp_all

definition hat_prv :: "nat \<Rightarrow> Hat \<Rightarrow> HatCursor \<Rightarrow> fault + (bool \<times> HatCursor)" where
  "hat_prv n s c =
     (if cur_idx c \<noteq> 0 then Inr (True, c\<lparr>cur_idx := cur_idx c - 1\<rparr>)
      else prv_pop n s c)"

text \<open>
  \<open>hat_last\<close>: its first loop ends at the last root slot taken, or returns 0 when
  \<open>rootscan\<close> reaches 0 on an empty slot.
\<close>

definition hat_last :: "nat \<Rightarrow> Hat \<Rightarrow> HatCursor \<Rightarrow> fault + (bool \<times> HatCursor)" where
  "hat_last n s c =
     bnd (stack_get (cur_next c) 0) (\<lambda>rootp.
     bnd (radix_of s rootp) (\<lambda>t.
     bnd (scan_down t (unat (maxroot c))) (\<lambda>r.
       case r of
         None \<Rightarrow> Inr (False, c\<lparr>rootscan := 0, cur_top := 0\<rparr>)
       | Some i \<Rightarrow>
           bnd (slot_at t i) (\<lambda>v.
           bnd (push (c\<lparr>rootscan := word_of_nat i, cur_top := 0\<rparr>) v) (\<lambda>c1.
           bnd (descend n s False c1) (\<lambda>c2. Inr (True, c2\<lparr>cur_idx := cur_cnt c2 - 1\<rparr>)))))))"


subsection \<open>\<open>hat_greater\<close>, \<open>hat_start\<close>, \<open>hat_key\<close>, \<open>hat_slot\<close>\<close>

text \<open>
  \<open>hat_greater\<close>: \<open>buff\<close> holds the bytes from the pointer passed, \<open>lim\<close> is the argument
  \<open>max\<close>.  \<open>memcmp\<close> over more bytes than \<open>buff\<close> has is a fault.
\<close>

function hat_greater ::
  "nat \<Rightarrow> Hat \<Rightarrow> HatCursor \<Rightarrow> uchar list \<Rightarrow> uint \<Rightarrow> fault + (bool \<times> HatCursor)" where
  "hat_greater 0 s c buff lim = Inl OutOfFuel"
| "hat_greater (Suc n) s c buff lim =
     (if cur_idx c < cur_cnt c
      then
        bnd (sort_get (cur_keys c) (cur_idx c)) (\<lambda>e.
        bnd (sort_len s (key e)) (\<lambda>(len, tst).
        bnd (case key e of
               Cell a off \<Rightarrow>
                 read_ptr s (Cell a (off + tst)) (unat (if ucast len > lim then lim else ucast len))
             | _ \<Rightarrow> Inl NullDeref) (\<lambda>kb.
          if length buff < length kb then Inl OutOfBounds
          else if kb \<noteq> take (length kb) buff
          then hat_greater n s (c\<lparr>cur_idx := cur_idx c + 1\<rparr>) buff lim
          else if ucast len \<ge> lim then Inr (True, c)
          else hat_greater n s (c\<lparr>cur_idx := cur_idx c + 1\<rparr>) buff lim)))
      else hat_nxt n s c)"
  by pat_completeness auto
termination
  by (relation "measure (\<lambda>(n, s, c, buff, lim). n)") simp_all

text \<open>
  The root loop of \<open>hat_start\<close>: \<open>cursor->rootscan *= 128; if( off < max )
  cursor->rootscan += buff[off++];\<close> for every root level.
\<close>

fun start_root :: "nat \<Rightarrow> uint \<Rightarrow> uchar list \<Rightarrow> uint \<Rightarrow> nat \<Rightarrow> uint \<times> nat" where
  "start_root 0 rs buff lim off = (rs, off)"
| "start_root (Suc k) rs buff lim off =
     (if word_of_nat off < lim
      then start_root k (rs * 128 + ucast (buff ! off)) buff lim (off + 1)
      else start_root k (rs * 128) buff lim off)"

text \<open>
  \<open>while( ch < 128 ) if( radix[ch] ) ... else max = 0, ch++;\<close>: the slot found, if
  any, and the value of \<open>max\<close> after the loop.
\<close>

function start_scan :: "HatSlot list \<Rightarrow> uchar \<Rightarrow> uint \<Rightarrow> fault + (uchar option \<times> uint)" where
  "start_scan t ch lim =
     (if ch < 128
      then bnd (slot_at t (unat ch)) (\<lambda>v.
             if v \<noteq> 0 then Inr (Some ch, lim) else start_scan t (ch + 1) 0)
      else Inr (None, lim))"
  by pat_completeness auto
termination
proof (relation "measure (\<lambda>(t, ch, lim). 128 - unat ch)")
  show "wf (measure (\<lambda>(t, ch, lim). 128 - unat ch))" by simp
next
  fix t :: "HatSlot list" and ch :: uchar and lim :: uint and v :: HatSlot
  assume "ch < 128"
  then have lt: "unat ch < 128"
    by (simp add: word_less_nat_alt)
  then have "unat (ch + 1) = unat ch + 1"
    by (simp add: unat_word_ariths)
  with lt show "((t, ch + 1, 0), (t, ch, lim)) \<in> measure (\<lambda>(t, ch, lim). 128 - unat ch)"
    by simp
qed

text \<open>\<open>hat_start\<close> from its label \<open>loop\<close>.  A cursor that is freed is \<open>None\<close>.\<close>

function start_loop ::
  "nat \<Rightarrow> Hat \<Rightarrow> HatCursor \<Rightarrow> uchar list \<Rightarrow> uint \<Rightarrow> nat \<Rightarrow> fault + HatCursor option" where
  "start_loop 0 s c buff lim off = Inl OutOfFuel"
| "start_loop (Suc n) s c buff lim off =
     bnd (stack_get (cur_next c) (cur_top c)) (\<lambda>node.
       if node AND HAT_type = ucast HAT_radix
       then
         bnd (radix_of s (node AND HAT_mask)) (\<lambda>t.
         bnd (if lim > word_of_nat off
              then bnd (byte_at buff off) (\<lambda>ch. Inr (ch, off + 1))
              else Inr (0, off)) (\<lambda>(ch, off1).
         bnd (start_scan t ch lim) (\<lambda>(r, lim1).
           case r of
             Some ch1 \<Rightarrow>
               bnd (slot_at t (unat ch1)) (\<lambda>v.
               bnd (push_scan c ch1 v) (\<lambda>c1. start_loop n s c1 buff lim1 off1))
           | None \<Rightarrow>
               bnd (hat_nxt n s c) (\<lambda>(ok, c1). Inr (if ok then Some c1 else None)))))
       else
         bnd (hat_sort n s c) (\<lambda>c1.
         bnd (hat_greater n s (c1\<lparr>cur_idx := 0\<rparr>) (drop off buff) (lim - word_of_nat off))
           (\<lambda>(ok, c2). Inr (if ok then Some c2 else None))))"
  by pat_completeness auto
termination
  by (relation "measure (\<lambda>(n, s, c, buff, lim, off). n)") simp_all

text \<open>\<open>hat_start (cursor, buff, max)\<close> with \<open>max\<close> the length of \<open>buff\<close>.\<close>

definition hat_start :: "nat \<Rightarrow> Hat \<Rightarrow> HatCursor \<Rightarrow> uchar list \<Rightarrow> fault + HatCursor option" where
  "hat_start n s c buff =
     (let lim = (if (word_of_nat (length buff) :: uint) > 255 then 255
                 else word_of_nat (length buff));
          (rs, off) = start_root (nat (rootlvl c)) (rootscan c) buff lim 0;
          c1 = c\<lparr>rootscan := rs, cur_top := 0\<rparr>
      in bnd (stack_get (cur_next c1) 0) (\<lambda>rootp.
         bnd (radix_of s rootp) (\<lambda>t.
         bnd (slot_at t (unat rs)) (\<lambda>v.
           if v \<noteq> 0
           then bnd (push c1 v) (\<lambda>c2. start_loop n s c2 buff lim off)
           else bnd (hat_nxt n s (c1\<lparr>cur_top := cur_top c1 + 1\<rparr>)) (\<lambda>(ok, c2).
                  Inr (if ok then Some c2 else None))))))"

definition hat_slot :: "HatCursor \<Rightarrow> fault + ptr" where
  "hat_slot c = bnd (sort_get (cur_keys c) (cur_idx c)) (\<lambda>e. Inr (slot e))"

text \<open>
  \<open>hat_key\<close>: the result is the bytes written to \<open>buff\<close> before the terminator, \<open>off\<close> of
  them; \<open>lim\<close> is \<open>max\<close> after \<open>max--\<close>.  \<open>emit\<close> is \<open>if( off < max ) buff[off++] = ch\<close>.
\<close>

definition emit :: "uint \<Rightarrow> uchar list \<Rightarrow> uchar \<Rightarrow> uchar list" where
  "emit lim out ch = (if (word_of_nat (length out) :: uint) < lim then out @ [ch] else out)"

text \<open>
  \<open>for( scan = cursor->rootlvl; scan--; ) if( ch = (cursor->rootscan >> scan * 7) & 0x7F )
  if( off < max ) buff[off++] = ch;\<close>
\<close>

fun key_root :: "uint \<Rightarrow> uint \<Rightarrow> nat \<Rightarrow> uchar list \<Rightarrow> uchar list" where
  "key_root lim rs 0 out = out"
| "key_root lim rs (Suc k) out =
     key_root lim rs k
       (if drop_bit (k * 7) rs AND 0x7F \<noteq> 0 then emit lim out (ucast (drop_bit (k * 7) rs AND 0x7F))
        else out)"

text \<open>The radix levels \<open>idx = 1 .. top - 1\<close>: a scan byte of 0 is skipped.\<close>

fun key_scan :: "uint \<Rightarrow> uchar list \<Rightarrow> int list \<Rightarrow> uchar list \<Rightarrow> fault + uchar list" where
  "key_scan lim sc [] out = Inr out"
| "key_scan lim sc (i # is) out =
     (if (word_of_nat (length out) :: uint) < lim
      then bnd (stack_get sc i) (\<lambda>ch. key_scan lim sc is (if ch \<noteq> 0 then out @ [ch] else out))
      else key_scan lim sc is out)"

text \<open>
  \<open>while( len-- && off < max ) buff[off++] = *key++;\<close> copies the first \<open>len\<close> bytes of
  the key behind its prefix of \<open>skip\<close> bytes, or the \<open>max - off\<close> bytes there is room
  for when that is less.
\<close>

definition key_tail :: "Hat \<Rightarrow> uint \<Rightarrow> ptr \<Rightarrow> nat \<Rightarrow> ushort \<Rightarrow> uchar list \<Rightarrow> fault + uchar list" where
  "key_tail s lim p skip len out =
     (if (word_of_nat (length out) :: uint) < lim \<and> len \<noteq> 0
      then
        (case p of
           Cell a off \<Rightarrow>
             bnd (read_ptr s (Cell a (off + skip))
                    (unat (if ucast len < lim - word_of_nat (length out) then ucast len
                           else lim - word_of_nat (length out))))
               (\<lambda>bs. Inr (out @ bs))
         | _ \<Rightarrow> Inl NullDeref)
      else Inr out)"

definition hat_key :: "Hat \<Rightarrow> HatCursor \<Rightarrow> uint \<Rightarrow> fault + uchar list" where
  "hat_key s c max0 =
     (if cur_top c < 0 then Inr []
      else
        bnd (key_scan (max0 - 1) (scan c) [1..cur_top c - 1]
               (if 0 < cur_top c then key_root (max0 - 1) (rootscan c) (nat (rootlvl c)) []
                else [])) (\<lambda>out.
        bnd (sort_get (cur_keys c) (cur_idx c)) (\<lambda>e.
        bnd (sort_len s (key e)) (\<lambda>(len, skip).
          key_tail s (max0 - 1) (key e) skip len out))))"

subsection \<open>The loops of the demonstration program over a cursor\<close>

text \<open>
  \<open>sorthattrie\<close> prints the keys with
  \<open>if( hat_start (cursor, NULL, 0) ) do hat_key (...) while( hat_nxt (cursor) );\<close> and, with
  \<open>REVERSE\<close>, with \<open>hat_last\<close> and \<open>hat_prv\<close>.  \<open>keys_next\<close> and \<open>keys_prev\<close> are these
  \<open>do\<close> loops, with the list of the keys that \<open>hat_key\<close> gives in a buffer of \<open>max0\<close> bytes.
\<close>

function keys_next :: "nat \<Rightarrow> Hat \<Rightarrow> HatCursor \<Rightarrow> uint \<Rightarrow> fault + uchar list list" where
  "keys_next 0 s c max0 = Inl OutOfFuel"
| "keys_next (Suc n) s c max0 =
     bnd (hat_key s c max0) (\<lambda>k.
     bnd (hat_nxt n s c) (\<lambda>(ok, c1).
       if ok then bnd (keys_next n s c1 max0) (\<lambda>ks. Inr (k # ks)) else Inr [k]))"
  by pat_completeness auto
termination
  by (relation "measure (\<lambda>(n, s, c, max0). n)") simp_all

function keys_prev :: "nat \<Rightarrow> Hat \<Rightarrow> HatCursor \<Rightarrow> uint \<Rightarrow> fault + uchar list list" where
  "keys_prev 0 s c max0 = Inl OutOfFuel"
| "keys_prev (Suc n) s c max0 =
     bnd (hat_key s c max0) (\<lambda>k.
     bnd (hat_prv n s c) (\<lambda>(ok, c1).
       if ok then bnd (keys_prev n s c1 max0) (\<lambda>ks. Inr (k # ks)) else Inr [k]))"
  by pat_completeness auto
termination
  by (relation "measure (\<lambda>(n, s, c, max0). n)") simp_all

text \<open>The keys from \<open>hat_start\<close> on the empty key on, and from \<open>hat_last\<close> back.\<close>

definition keys_ascending :: "nat \<Rightarrow> Hat \<Rightarrow> int list \<Rightarrow> uint \<Rightarrow> fault + uchar list list" where
  "keys_ascending n s dr max0 =
     bnd (hat_start n s (hat_cursor s dr) []) (\<lambda>r.
       case r of None \<Rightarrow> Inr [] | Some c \<Rightarrow> keys_next n s c max0)"

definition keys_descending :: "nat \<Rightarrow> Hat \<Rightarrow> int list \<Rightarrow> uint \<Rightarrow> fault + uchar list list" where
  "keys_descending n s dr max0 =
     bnd (hat_last n s (hat_cursor s dr)) (\<lambda>(ok, c).
       if ok then keys_prev n s c max0 else Inr [])"


subsection \<open>The result of a call without the state\<close>

definition outcome :: "fault + ('a \<times> Hat) \<Rightarrow> fault + 'a" where
  "outcome r = (case r of Inl e \<Rightarrow> Inl e | Inr (x, s) \<Rightarrow> Inr x)"

subsection \<open>What a search may change\<close>

text \<open>
  Two states with the same container: the blocks of the arena (root table, radix,
  bucket and pail nodes, arrays), the segments, the free lists and the other fields of
  the \<open>Hat\<close> object are the same.  Only the counters \<open>Searches\<close>, \<open>Probes\<close>,
  \<open>Bucket\<close>, \<open>Pail\<close> and \<open>Radix\<close> of the file may differ.
\<close>

definition same_container :: "Hat \<Rightarrow> Hat \<Rightarrow> bool" where
  "same_container s s' \<longleftrightarrow>
     mem s' = mem s \<and> root s' = root s \<and> reuse s' = reuse s \<and> counts s' = counts s \<and>
     seg s' = seg s \<and> mallocs s' = mallocs s \<and> bootlvl s' = bootlvl s \<and> aux s' = aux s \<and>
     MaxMem s' = MaxMem s \<and> Small s' = Small s"

text \<open>A container with one root level and the key \<open>H\<close> in it.\<close>

definition witness_hat :: Hat where
  "witness_hat = snd (projr (hat_cell 10 (projr (hat_open 1 0)) [72]))"


text \<open>
  The index of the root table that the loops of \<open>hat_find\<close> and \<open>hat_cell\<close> compute from
  the key bytes of the root levels: \<open>triple *= 128; triple += buff[off++]\<close> for each of
  them, in an \<open>uint\<close>.
\<close>

definition cascade_index :: "uchar list \<Rightarrow> uint" where
  "cascade_index bs = foldl (\<lambda>triple b. triple * 128 + ucast b) 0 bs"

text \<open>
  \<open>hat_cell\<close> on a key, and then: whether the cell returned is not null; which slots of
  the table at \<open>a\<close> are taken; whether \<open>hat_find\<close> on the key returns that cell; and what
  \<open>hat_find\<close> on the key returns once slot \<open>i\<close> of the table at \<open>a\<close> is cleared.
\<close>

definition cell_then_find ::
  "nat \<Rightarrow> Hat \<Rightarrow> HatSlot \<Rightarrow> nat \<Rightarrow> uchar list \<Rightarrow>
     fault + (bool \<times> bool list \<times> bool \<times> (fault + ptr))" where
  "cell_then_find n s a i buff =
     bnd (hat_cell n s buff) (\<lambda>(cell, s1).
     bnd (slots_of s1 a) (\<lambda>t.
     bnd (set_slot s1 (a, i) 0) (\<lambda>s2.
       Inr (cell \<noteq> NULL, map (\<lambda>v. v \<noteq> 0) t, outcome (hat_find n s1 buff) = Inr cell,
            outcome (hat_find n s2 buff)))))"

text \<open>
  A container with one root level and four aux bytes in which root slot \<open>H\<close> (72) holds
  an empty radix node: the address of the radix node, and the container.
\<close>

definition radix_built :: "HatSlot \<times> Hat" where
  "radix_built =
     projr
       (bnd (hat_open 1 4) (\<lambda>s.
        bnd (hat_alloc s HAT_radix) (\<lambda>(r, s1).
        bnd (set_slot s1 (root s1, 72) (r OR ucast HAT_radix)) (\<lambda>s2. Inr (r, s2)))))"

definition radix_addr :: HatSlot where
  "radix_addr = fst radix_built"

definition radix_hat :: Hat where
  "radix_hat = snd radix_built"

text \<open>
  The container that \<open>hat_open (0, 0)\<close> gives: the root table of one slot, which holds
  the tagged address of a bucket of \<open>HatBucketSlots\<close> null slots and count 0.
\<close>

definition empty_hat :: "Hat \<Rightarrow> bool" where
  "empty_hat s \<longleftrightarrow>
     bootlvl s = 0 \<and> aux s = 0 \<and> root s = 4295492016 \<and>
     mem s 4295492016 = Some (RadixNode [4294967313]) \<and>
     mem s 4294967312 = Some (BucketNode 0 (replicate 2047 0))"

section \<open>Properties\<close>

subsection \<open>\<open>keycmp\<close> is bytewise equality\<close>

text \<open>
  Eight bytes read as one little-endian word determine the bytes: the word is below
  \<open>256 ^ 8\<close>, and its digits to the base 256 are the bytes.
\<close>

lemma le_word_unat:
  "length bs \<le> 8 \<Longrightarrow> unat (le_word bs) = foldr (\<lambda>b n. unat b + 256 * n) bs 0
     \<and> foldr (\<lambda>b n. unat b + 256 * n) bs 0 < 256 ^ length bs"
proof (induction bs)
  case Nil
  show ?case by simp
next
  case (Cons b bs)
  let ?f = "foldr (\<lambda>b n. unat b + 256 * n) bs 0"
  from Cons have ih: "unat (le_word bs) = ?f" and bound: "?f < 256 ^ length bs"
    by simp_all
  have len: "length bs \<le> 7" using Cons.prems by simp
  have "(256::nat) ^ length bs \<le> 256 ^ 7"
    using len by (intro power_increasing) simp_all
  with bound have small: "?f < 256 ^ 7" by linarith
  have ub: "unat b < 256" using unsigned_less [of b] by simp
  have un: "unat (ucast b :: 64 word) = unat b"
    using ub by (simp add: unsigned_ucast_eq take_bit_nat_eq_self)
  have "unat (256 * le_word bs :: 64 word)
      = (unat (256 :: 64 word) * unat (le_word bs)) mod 2 ^ LENGTH(64)"
    by (rule unat_word_ariths(2))
  also have "\<dots> = (256 * ?f) mod 2 ^ 64"
    unfolding ih by simp
  also have "\<dots> = 256 * ?f" using small by simp
  finally have m: "unat (256 * le_word bs :: 64 word) = 256 * ?f" .
  have "unat (ucast b + 256 * le_word bs :: 64 word)
      = (unat (ucast b :: 64 word) + unat (256 * le_word bs :: 64 word)) mod 2 ^ LENGTH(64)"
    by (rule unat_word_ariths(1))
  also have "\<dots> = (unat b + 256 * ?f) mod 2 ^ 64"
    unfolding un m by simp
  also have "\<dots> = unat b + 256 * ?f" using small ub by simp
  finally have 1: "unat (le_word (b # bs)) = unat b + 256 * ?f" by simp
  from bound have "Suc ?f \<le> 256 ^ length bs" by simp
  then have "256 * Suc ?f \<le> 256 * 256 ^ length bs" by (rule mult_le_mono2)
  then have "unat b + 256 * ?f < 256 * 256 ^ length bs" using ub by simp
  then show ?case using 1 by simp
qed

lemma foldr_le_inj:
  "length xs = length ys \<Longrightarrow>
   foldr (\<lambda>b n. unat b + 256 * n) xs 0 = foldr (\<lambda>b n. unat b + 256 * n) ys (0::nat) \<Longrightarrow>
   xs = (ys :: uchar list)"
proof (induction xs ys rule: list_induct2)
  case Nil
  show ?case by simp
next
  case (Cons x xs y ys)
  let ?f = "\<lambda>zs. foldr (\<lambda>b n. unat b + 256 * n) zs (0::nat)"
  have eq: "unat x + 256 * ?f xs = unat y + 256 * ?f ys" using Cons.prems by simp
  have ux: "unat x < 256" using unsigned_less [of x] by simp
  have uy: "unat y < 256" using unsigned_less [of y] by simp
  from eq have "(unat x + 256 * ?f xs) mod 256 = (unat y + 256 * ?f ys) mod 256" by simp
  then have xy: "unat x = unat y" using ux uy by simp
  with eq have "?f xs = ?f ys" by simp
  with Cons.IH have "xs = ys" by simp
  moreover from xy have "x = y" by (simp add: word_unat_eq_iff)
  ultimately show ?case by simp
qed

lemma le_word_inj:
  assumes "length xs = 8" "length ys = 8"
  shows "(le_word xs = le_word ys) = (xs = ys)"
proof
  assume "le_word xs = le_word ys"
  then have "unat (le_word xs) = unat (le_word ys)" by simp
  then have "foldr (\<lambda>b n. unat b + 256 * n) xs 0 = foldr (\<lambda>b n. unat b + 256 * n) ys 0"
    using le_word_unat [of xs] le_word_unat [of ys] assms by simp
  then show "xs = ys" using foldr_le_inj assms by simp
qed simp

lemma keycmp_words_eq:
  "len mod 8 = 0 \<Longrightarrow> p + len \<le> length str1 \<Longrightarrow> p + len \<le> length str2 \<Longrightarrow>
   keycmp_words str1 str2 p len
     = Inr (if take len (drop p str1) = take len (drop p str2) then 0 else 1)"
proof (induction str1 str2 p len rule: keycmp_words.induct)
  case (1 str1 str2 p len)
  show ?case
  proof (cases "len = 0")
    case True
    then show ?thesis by (subst keycmp_words.simps) simp
  next
    case False
    with "1.prems" have ge: "8 \<le> len" by presburger
    have l1: "load_slot str1 p = Inr (le_word (take 8 (drop p str1)))"
      using ge "1.prems" by (simp add: load_slot_def HAT_slot_size_def)
    have l2: "load_slot str2 p = Inr (le_word (take 8 (drop p str2)))"
      using ge "1.prems" by (simp add: load_slot_def HAT_slot_size_def)
    have len8: "length (take 8 (drop p str1)) = 8" "length (take 8 (drop p str2)) = 8"
      using ge "1.prems" by simp_all
    have split1: "take len (drop p str1) = take 8 (drop p str1) @ take (len - 8) (drop (p + 8) str1)"
    proof -
      have "take (8 + (len - 8)) (drop p str1)
          = take 8 (drop p str1) @ take (len - 8) (drop 8 (drop p str1))"
        by (rule take_add)
      then show ?thesis using ge by (simp add: add.commute)
    qed
    have split2: "take len (drop p str2) = take 8 (drop p str2) @ take (len - 8) (drop (p + 8) str2)"
    proof -
      have "take (8 + (len - 8)) (drop p str2)
          = take 8 (drop p str2) @ take (len - 8) (drop 8 (drop p str2))"
        by (rule take_add)
      then show ?thesis using ge by (simp add: add.commute)
    qed
    show ?thesis
    proof (cases "take 8 (drop p str1) = take 8 (drop p str2)")
      case True
      have m: "(len - 8) mod 8 = 0" using "1.prems" ge by presburger
      have ih: "keycmp_words str1 str2 (p + 8) (len - 8)
          = Inr (if take (len - 8) (drop (p + 8) str1) = take (len - 8) (drop (p + 8) str2)
                 then 0 else 1)"
        using "1.IH" [OF False, of 0 0] True m "1.prems" ge
        by (simp add: HAT_slot_size_def)
      show ?thesis
        using False l1 l2 True ih split1 split2
        by (subst keycmp_words.simps) (simp add: bnd_def HAT_slot_size_def)
    next
      case ne: False
      then have "le_word (take 8 (drop p str1)) \<noteq> le_word (take 8 (drop p str2))"
        using le_word_inj len8 by blast
      moreover have "take len (drop p str1) \<noteq> take len (drop p str2)"
        using ne split1 split2 len8 by simp
      ultimately show ?thesis
        using False l1 l2
        by (subst keycmp_words.simps) (simp add: bnd_def)
    qed
  qed
qed

text \<open>
  Claim C10.  For all byte strings \<open>str1\<close> and \<open>str2\<close> that hold at least \<open>len\<close> bytes,
  \<open>keycmp (str1, str2, len)\<close> returns 0 if the first \<open>len\<close> bytes of the two are pairwise
  equal and 1 otherwise: the comparison of the tail bytes followed by the comparison of
  whole words is plain bytewise equality.
\<close>

theorem keycmp_bytewise:
  "len \<le> length str1 \<Longrightarrow> len \<le> length str2 \<Longrightarrow>
   keycmp str1 str2 len = Inr (if take len str1 = take len str2 then 0 else 1)"
proof (induction str1 str2 len rule: keycmp.induct)
  case (1 str1 str2 len)
  show ?case
  proof (cases "len mod HAT_slot_size = 0")
    case True
    then show ?thesis
      using keycmp_words_eq [of len 0 str1 str2] "1.prems"
      by (subst keycmp.simps) (simp add: HAT_slot_size_def)
  next
    case False
    then have pos: "0 < len" by (cases len) simp_all
    have b1: "byte_at str1 (len - 1) = Inr (str1 ! (len - 1))"
      using pos "1.prems" by (simp add: byte_at_def)
    have b2: "byte_at str2 (len - 1) = Inr (str2 ! (len - 1))"
      using pos "1.prems" by (simp add: byte_at_def)
    have t1: "take len str1 = take (len - 1) str1 @ [str1 ! (len - 1)]"
    proof -
      have "len - 1 < length str1" using pos "1.prems" by simp
      then have "take (Suc (len - 1)) str1 = take (len - 1) str1 @ [str1 ! (len - 1)]"
        by (rule take_Suc_conv_app_nth)
      then show ?thesis using pos by simp
    qed
    have t2: "take len str2 = take (len - 1) str2 @ [str2 ! (len - 1)]"
    proof -
      have "len - 1 < length str2" using pos "1.prems" by simp
      then have "take (Suc (len - 1)) str2 = take (len - 1) str2 @ [str2 ! (len - 1)]"
        by (rule take_Suc_conv_app_nth)
      then show ?thesis using pos by simp
    qed
    show ?thesis
    proof (cases "str1 ! (len - 1) = str2 ! (len - 1)")
      case True
      have ih: "keycmp str1 str2 (len - 1)
          = Inr (if take (len - 1) str1 = take (len - 1) str2 then 0 else 1)"
        using "1.IH" [OF False, of 0 0] True "1.prems" by simp
      show ?thesis
        using False b1 b2 True ih t1 t2
        by (subst keycmp.simps) (simp add: bnd_def)
    next
      case ne: False
      have "take len str1 \<noteq> take len str2" using ne t1 t2 by simp
      then show ?thesis
        using False b1 b2 ne
        by (subst keycmp.simps) (simp add: bnd_def)
    qed
  qed
qed


theorem keycmp_bytewise_witness:
  "keycmp [1, 2, 3, 4, 5, 6, 7, 8, 9, 10, 11] [1, 2, 3, 4, 5, 6, 7, 8, 9, 10, 11, 12] 11 = Inr 0
   \<and> keycmp [1, 2, 3, 4, 5, 6, 7, 8, 9, 10, 11] [1, 2, 3, 0, 5, 6, 7, 8, 9, 10, 11] 11 = Inr 1"
  using keycmp_bytewise [of 11 "[1, 2, 3, 4, 5, 6, 7, 8, 9, 10, 11]"
          "[1, 2, 3, 4, 5, 6, 7, 8, 9, 10, 11, 12]"]
        keycmp_bytewise [of 11 "[1, 2, 3, 4, 5, 6, 7, 8, 9, 10, 11]"
          "[1, 2, 3, 0, 5, 6, 7, 8, 9, 10, 11]"]
  by simp


subsection \<open>Keys of 128 and more bytes in an array\<close>

text \<open>
  The keys below are \<open>a\<close> followed by 128 or 256 times \<open>b\<close>, in a container opened with
  one root level: the root level takes the \<open>a\<close>, and the array under root slot 97
  stores the rest, of 128 or 256 bytes, behind a prefix of two bytes.

  Claim C1.  For every key \<open>K\<close> of length 0 to 32767 inserted by \<open>hat_cell\<close>, a
  \<open>hat_find\<close> that follows at once returns a non-null pointer to the aux bytes of \<open>K\<close>,
  in particular at the lengths 127, 128 and 129.  The code does not do so: in
  \<open>hat_open (1, 4)\<close>, \<open>hat_cell\<close> stores the key of 129 bytes and returns its aux
  slot, and \<open>hat_find\<close> of the same key returns null.  The scan of \<open>hat_find\<close> adds
  the second prefix byte to the first without taking the flag \<open>0x80\<close> off
  (\<open>find_len\<close>), so it reads the length 256 where 128 is stored.
\<close>

theorem C1_find_misses_stored_key:
  "bnd (hat_open 1 4) (\<lambda>s.
   bnd (hat_cell 10 s (97 # replicate 128 98)) (\<lambda>(cell, s1).
     Inr (cell, outcome (hat_find 10 s1 (97 # replicate 128 98)))))
   = Inr (Cell 4294967312 156, Inr NULL)"
  by code_simp

text \<open>
  Claim C2.  After any insertions, \<open>hat_start\<close> on the empty key and \<open>hat_nxt\<close> visit
  every stored key once, in non-decreasing bytewise order.  The code does not do so:
  with the keys \<open>a b^256\<close> and \<open>aa\<close> in \<open>hat_open (1, 0)\<close> the cursor gives \<open>a b^256\<close>
  first and \<open>aa\<close> second.  The insertion sort of \<open>hat_qsort\<close> keeps the key lengths in
  \<open>uchar\<close> variables (\<open>ins_len\<close>), where the length 256 is 0.
\<close>

theorem C2_iteration_out_of_order:
  "bnd (hat_open 1 0) (\<lambda>s.
   bnd (hat_cell 10 s (97 # replicate 256 98)) (\<lambda>(c1, s1).
   bnd (hat_cell 10 s1 [97, 97]) (\<lambda>(c2, s2).
     keys_ascending 300 s2 [] 512)))
   = Inr [97 # replicate 256 98, [97, 97]]"
  by code_simp

text \<open>
  Claim C3.  \<open>hat_cell\<close> called twice with the same key returns the same aux slot both
  times, and the number of keys grows only with the first call.  The code does not do
  so for the key of 129 bytes in \<open>hat_open (1, 4)\<close>: the two calls return different
  slots, and the array holds one key after the first call and two after the second.
  The scan of \<open>hat_cell\<close> decodes the length as that of \<open>hat_find\<close> does.
\<close>

theorem C3_second_cell_stores_duplicate:
  "bnd (hat_open 1 4) (\<lambda>s.
   bnd (hat_cell 10 s (97 # replicate 128 98)) (\<lambda>(c1, s1).
   bnd (hat_cell 10 s1 (97 # replicate 128 98)) (\<lambda>(c2, s2).
   bnd (get_slot s1 (root s1, 97)) (\<lambda>node1.
   bnd (deref_base s1 (node1 AND HAT_mask)) (\<lambda>b1.
   bnd (get_slot s2 (root s2, 97)) (\<lambda>node2.
   bnd (deref_base s2 (node2 AND HAT_mask)) (\<lambda>b2.
     Inr (c1, c2, cnt b1, cnt b2))))))))
   = Inr (Cell 4294967312 156, Cell 4294967472 376, 1, 2)"
  by code_simp

text \<open>
  Claim C4.  \<open>hat_start (K)\<close> puts the cursor on the least stored key that is not below
  \<open>K\<close>, and returns null only when there is none.  The code does not do so: with the
  one key \<open>ab\<close> stored (\<open>hat_find\<close> finds it), \<open>hat_start\<close> on \<open>aa\<close> returns null.
  \<open>hat_greater\<close> passes over every key whose first bytes differ from the probe, the
  greater ones too.
\<close>

theorem C4_start_misses_greater_key:
  "bnd (hat_open 1 0) (\<lambda>s.
   bnd (hat_cell 10 s [97, 98]) (\<lambda>(c1, s1).
   bnd (hat_start 10 s1 (hat_cursor s1 []) [97, 97]) (\<lambda>r.
     Inr (outcome (hat_find 10 s1 [97, 98]), Option.is_none r))))
   = Inr (Inr One, True)"
  by code_simp

text \<open>
  Claim C6.  Every operation keeps the keys of an array parsable from offset 0 to
  \<open>nxt\<close>, each behind a prefix of one byte for a length below 128 and else of the two
  bytes \<open>(len & 0x7f) | 0x80\<close> and \<open>len >> 7\<close>; so does \<open>hat_promote\<close> for every length.
  The code does not do so: in \<open>hat_open (1, 0)\<close> with the key \<open>a\<close> stored, the key
  \<open>a b^256\<close> is added by \<open>hat_promote\<close>.  The array then holds two keys in 259 bytes,
  and the prefix of the second, at offset 1, is \<open>0, 0\<close> where the encoding of 256 is
  \<open>0x80, 2\<close>: \<open>hat_promote\<close> tests \<open>amt & 0x80\<close> where \<open>hat_new_array\<close> and
  \<open>hat_add_array\<close> test \<open>amt > 0x7f\<close>.
\<close>

theorem C6_promote_stores_wrong_prefix:
  "bnd (hat_open 1 0) (\<lambda>s.
   bnd (hat_cell 10 s [97]) (\<lambda>(c1, s1).
   bnd (hat_cell 10 s1 (97 # replicate 256 98)) (\<lambda>(c2, s2).
   bnd (get_slot s2 (root s2, 97)) (\<lambda>node.
   bnd (deref_base s2 (node AND HAT_mask)) (\<lambda>b.
     Inr (cnt b, nxt b, take 4 (keys b), prefix_bytes 256))))))
   = Inr (2, 259, [0, 0, 0, 98], [128, 2])"
  by code_simp

text \<open>
  Claim C7.  Without aux bytes \<open>hat_cell\<close> returns a non-null constant for a key that
  is stored already and another constant for a new key, and \<open>hat_find\<close> a non-null
  constant on a hit and null on a miss.  The code does not do so for the key of 129
  bytes in \<open>hat_open (1, 0)\<close>: the first \<open>hat_cell\<close> stores it and returns null, the
  second, with the key stored, returns null again and stores it once more.
\<close>

theorem C7_cell_on_stored_key_returns_null:
  "bnd (hat_open 1 0) (\<lambda>s.
   bnd (hat_cell 10 s (97 # replicate 128 98)) (\<lambda>(c1, s1).
   bnd (hat_cell 10 s1 (97 # replicate 128 98)) (\<lambda>(c2, s2).
   bnd (get_slot s1 (root s1, 97)) (\<lambda>node1.
   bnd (deref_base s1 (node1 AND HAT_mask)) (\<lambda>b1.
   bnd (get_slot s2 (root s2, 97)) (\<lambda>node2.
   bnd (deref_base s2 (node2 AND HAT_mask)) (\<lambda>b2.
     Inr (c1, cnt b1, c2, cnt b2))))))))
   = Inr (NULL, 1, NULL, 2)"
  by code_simp

subsection \<open>\<open>hat_find\<close> leaves the container as it is\<close>

lemma find_array_frame:
  "find_array n s base k0 tst k = Inr (p, s') \<Longrightarrow> same_container s s'"
proof (induction n arbitrary: s tst k)
  case 0
  then show ?case by simp
next
  case (Suc n)
  from Suc.prems show ?case
    by (auto simp: bnd_def same_container_def split: sum.splits if_splits prod.splits
             dest!: Suc.IH)
qed

lemma hat_find_loop_frame:
  "hat_find_loop n s next buff off = Inr (p, s') \<Longrightarrow> same_container s s'"
proof (induction n arbitrary: s "next" off)
  case 0
  then show ?case by simp
next
  case (Suc n)
  from Suc.prems show ?case
    by (auto simp: bnd_def same_container_def split: sum.splits if_splits prod.splits
             dest!: Suc.IH find_array_frame)
qed

text \<open>
  Claim C9.  \<open>hat_find\<close> never changes the container: whenever a call returns, with a hit
  or with a miss, the blocks of the arena (the root table, the radix tables, the buckets
  with their counts and slots, the pails, the arrays), the root, the free lists, the
  node counts, the segment list and the number of segments, and the parameters
  \<open>bootlvl\<close> and \<open>aux\<close> are the same after the call as before it.  (The call counts its
  work in the globals \<open>Searches\<close>, \<open>Probes\<close>, \<open>Bucket\<close>, \<open>Pail\<close> and \<open>Radix\<close>.)
\<close>

theorem hat_find_frame:
  "hat_find n s buff = Inr (p, s') \<Longrightarrow>
   mem s' = mem s \<and> root s' = root s \<and> reuse s' = reuse s \<and> counts s' = counts s \<and>
   seg s' = seg s \<and> mallocs s' = mallocs s \<and> bootlvl s' = bootlvl s \<and> aux s' = aux s"
proof -
  assume "hat_find n s buff = Inr (p, s')"
  then have "same_container s s'"
    by (auto simp: hat_find_def bnd_def split: sum.splits prod.splits dest: hat_find_loop_frame)
  then show ?thesis by (simp add: same_container_def)
qed

theorem hat_find_frame_witness:
  "(\<exists>s'. hat_find 10 witness_hat [72] = Inr (One, s') \<and>
      mem s' = mem witness_hat \<and> root s' = root witness_hat \<and> reuse s' = reuse witness_hat \<and>
      counts s' = counts witness_hat \<and> seg s' = seg witness_hat \<and>
      mallocs s' = mallocs witness_hat \<and> bootlvl s' = bootlvl witness_hat \<and>
      aux s' = aux witness_hat)
   \<and> (\<exists>s'. hat_find 10 witness_hat [73] = Inr (NULL, s') \<and>
      mem s' = mem witness_hat \<and> root s' = root witness_hat \<and> reuse s' = reuse witness_hat \<and>
      counts s' = counts witness_hat \<and> seg s' = seg witness_hat \<and>
      mallocs s' = mallocs witness_hat \<and> bootlvl s' = bootlvl witness_hat \<and>
      aux s' = aux witness_hat)"
proof -
  have "outcome (hat_find 10 witness_hat [72]) = Inr One"
    by code_simp
  then obtain s1 where hit: "hat_find 10 witness_hat [72] = Inr (One, s1)"
    by (auto simp: outcome_def split: sum.splits prod.splits)
  have "outcome (hat_find 10 witness_hat [73]) = Inr NULL"
    by code_simp
  then obtain s2 where miss: "hat_find 10 witness_hat [73] = Inr (NULL, s2)"
    by (auto simp: outcome_def split: sum.splits prod.splits)
  show ?thesis
    using hat_find_frame [OF hit] hat_find_frame [OF miss] hit miss by simp
qed

subsection \<open>Key bytes as indices of the radix and root tables\<close>

lemma tag_values: "ucast HAT_radix = (0::HatSlot)" "ucast HAT_bucket = (1::HatSlot)"
  "ucast HAT_array = (2::HatSlot)" "ucast HAT_pail = (3::HatSlot)"
  by (simp_all add: HAT_radix_def HAT_bucket_def HAT_array_def HAT_pail_def)

lemma bnd_simps: "bnd (Inr x) f = f x" "bnd (Inl e) f = Inl e"
  by (simp_all add: bnd_def)

lemma hat_alloc_result:
  "hat_alloc s ty = Inr (base, s1) \<Longrightarrow>
   \<exists>z. zero_node ty = Inr z \<and> mem s1 = (mem s)(base := Some z) \<and> aux s1 = aux s \<and>
       root s1 = root s \<and> bootlvl s1 = bootlvl s"
  by (auto simp: hat_alloc_def bnd_def Let_def new_seg_def
      split: sum.splits list.splits if_splits prod.splits)

lemma zero_node_1:
  "zero_node HAT_1 = Inr (BaseNode \<lparr>nxt = 0, type = 0, cnt = 0, keys = replicate 12 0\<rparr>)"
  by (simp add: zero_node_def HAT_1_def HAT_radix_def HAT_bucket_def HAT_pail_def HatSize_def
      HatSizeTable_def HAT_node_size_def bnd_def sizeof_HatBase_def)

lemma new_array_type_small: "new_array_type 10 HAT_1 = Inr HAT_1"
  by (simp add: HAT_1_def HatSize_def HatSizeTable_def HAT_node_size_def)

lemma hat_new_array_one:
  assumes al: "hat_alloc s HAT_1 = Inr (base, s1)"
    and tab: "radix_of s a = Inr t" and i: "i < length t"
    and base: "base \<noteq> 0" "base \<noteq> a" and aux4: "aux s = 4"
  shows "hat_new_array s (a, i) [c] =
     Inr (Cell base 12,
          s1\<lparr>mem := (mem s)(a := Some (RadixNode (t[i := base OR ucast HAT_array])),
                 base := Some (BaseNode \<lparr>nxt = 2, type = 4, cnt = 1,
                                 keys = [1, c] @ replicate 10 0\<rparr>))\<rparr>)"
proof -
  from hat_alloc_result [OF al] zero_node_1
  have s1: "mem s1 = (mem s)(base := Some (BaseNode \<lparr>nxt = 0, type = 0, cnt = 0, keys = replicate 12 0\<rparr>))"
    "aux s1 = aux s"
    by auto
  from tab have a: "a \<noteq> 0" "mem s a = Some (RadixNode t)"
    by (auto simp: radix_of_def split: if_splits option.splits node.splits)
  have ks: "take 0 (replicate 12 (0::uchar)) @ [1] @ drop 1 (replicate 12 0) = 1 # replicate 11 0"
    by simp
  show ?thesis
    using al i base aux4 a s1
    apply (simp add: hat_new_array_def skip_of_def Let_def new_array_type_small bnd_simps)
    apply (simp add: HAT_1_def HatMax_def HAT_32_def set_slot_def deref_base_def HatSize_def
        HatSizeTable_def HAT_node_size_def prefix_bytes_def memcpy_def slot_ptr_def put_base_def
        fun_upd_twist bnd_simps)
    done
qed


lemma array_slot_bits:
  assumes "base AND 7 = (0 :: HatSlot)"
  shows "(base OR ucast HAT_array) AND HAT_type = ucast HAT_array"
    and "(base OR ucast HAT_array) AND HAT_mask = base"
    and "base OR ucast HAT_array \<noteq> 0"
proof -
  have two: "(2 :: HatSlot) AND 7 = 2" "(2 :: HatSlot) AND NOT 7 = 0"
    by simp_all
  show t: "(base OR ucast HAT_array) AND HAT_type = ucast HAT_array"
    using assms by (simp add: tag_values HAT_type_def bit.conj_disj_distrib2 two)
  have "base = base AND (7 OR NOT 7)"
    by simp
  also have "\<dots> = (base AND 7) OR (base AND NOT 7)"
    by (simp only: bit.conj_disj_distrib)
  finally have "base AND NOT 7 = base"
    using assms by simp
  then show "(base OR ucast HAT_array) AND HAT_mask = base"
    by (simp add: tag_values HAT_mask_def bit.conj_disj_distrib2 two)
  show "base OR ucast HAT_array \<noteq> 0"
  proof
    assume "base OR ucast HAT_array = 0"
    with t show False
      by (simp add: tag_values)
  qed
qed

lemma find_new_array:
  assumes "deref_base s base =
      Inr \<lparr>nxt = 2, type = 4, cnt = 1, keys = [1, c] @ replicate 10 0\<rparr>"
    and "aux s = 4"
  shows "find_array (Suc n) s base [c] 0 0 = Inr (Cell base 12, s\<lparr>Probes := Probes s + 1\<rparr>)"
  using assms
  by (simp add: bnd_simps find_len_def byte_at_def key_matches_def found_slot_def HatSize_def
      HatSizeTable_def HAT_node_size_def slot_ptr_def HAT_slot_size_def)


lemma unat_byte: "unat (ucast (b :: uchar) :: uint) = unat b"
  by (simp add: unsigned_ucast_eq take_bit_nat_eq_self
        order_less_trans [OF unsigned_less [of b]])

lemma root_index_foldl:
  "root_index (length pre) tr (front @ pre @ rest) (length front) =
     (foldl (\<lambda>triple b. triple * 128 + ucast b) tr pre, length front + length pre)"
proof (induction pre arbitrary: tr front)
  case Nil
  then show ?case by simp
next
  case (Cons p ps)
  from Cons.IH [of "tr * 128 + ucast p" "front @ [p]"] show ?case
    by simp
qed

lemma root_index_cascade:
  "root_index (length pre) 0 (pre @ rest) 0 = (cascade_index pre, length pre)"
  using root_index_foldl [of pre 0 "[]" rest] by (simp add: cascade_index_def)

lemma high_bit_index:
  assumes "128 \<le> unat b"
  shows "cascade_index (pre @ [b]) = cascade_index (pre @ [b - 128]) + 128"
proof -
  from assms have "(128 :: uchar) \<le> b"
    by (simp add: word_le_nat_alt)
  then have "unat (b - 128) = unat b - 128"
    by (simp add: unat_sub)
  then have "(ucast (b - 128) :: uint) = ucast b - 128"
    using assms
    by (simp add: word_eq_iff_unsigned [where ?'a = nat] unat_byte unat_sub word_le_nat_alt)
  then show ?thesis
    by (simp add: cascade_index_def)
qed


lemma high_bit_carry:
  assumes "128 \<le> unat b" and "unat a < 255"
  shows "cascade_index (pre @ [a, b]) = cascade_index (pre @ [a + 1, b - 128])"
proof -
  from assms have "(128 :: uchar) \<le> b"
    by (simp add: word_le_nat_alt)
  then have "unat (b - 128) = unat b - 128"
    by (simp add: unat_sub)
  then have b: "(ucast (b - 128) :: uint) = ucast b - 128"
    using assms
    by (simp add: word_eq_iff_unsigned [where ?'a = nat] unat_byte unat_sub word_le_nat_alt)
  from assms have "unat (a + 1) = unat a + 1"
    by (simp add: unat_word_ariths)
  then have a: "(ucast (a + 1) :: uint) = ucast a + 1"
    using assms
    by (simp add: word_eq_iff_unsigned [where ?'a = nat] unat_byte unat_word_ariths)
  show ?thesis
    by (simp add: cascade_index_def a b)
qed

lemma find_loop_new_array:
  assumes "v AND HAT_type = ucast HAT_array" and "v \<noteq> 0"
    and "deref_base s (v AND HAT_mask) =
      Inr \<lparr>nxt = 2, type = 4, cnt = 1, keys = [1, c] @ replicate 10 0\<rparr>"
    and "aux s = 4" and "drop off buff = [c]"
  shows "outcome (hat_find_loop (Suc (Suc n)) s v buff off) = Inr (Cell (v AND HAT_mask) 12)"
proof -
  from assms(3) have "deref_base (s\<lparr>Searches := Searches s + 1\<rparr>) (v AND HAT_mask) =
      Inr \<lparr>nxt = 2, type = 4, cnt = 1, keys = [1, c] @ replicate 10 0\<rparr>"
    by (auto simp: deref_base_def split: if_splits)
  from find_new_array [OF this, of n] assms(4)
  have fa: "find_array (Suc n) (s\<lparr>Searches := Searches s + 1\<rparr>) (v AND HAT_mask) [c] 0 0 =
      Inr (Cell (v AND HAT_mask) 12,
           s\<lparr>Searches := Searches s + 1, Probes := Probes s + 1\<rparr>)"
    by simp
  show ?thesis
    using assms(1, 2, 5) by (simp add: fa outcome_def del: find_array.simps)
qed

lemma find_loop_null: "outcome (hat_find_loop (Suc n) s 0 buff off) = Inr NULL"
  by (simp add: outcome_def)

lemma root_placed:
  assumes lvl: "unat (bootlvl s) = length pre"
    and tab: "radix_of s (root s) = Inr t"
    and i: "unat (cascade_index pre) < length t" "t ! unat (cascade_index pre) = 0"
    and aux4: "aux s = 4"
    and al: "hat_alloc s HAT_1 = Inr (base, s1)"
    and base: "base \<noteq> 0" "base AND 7 = 0" "base \<noteq> root s"
  shows "cell_then_find (Suc (Suc n)) s (root s) (unat (cascade_index pre)) (pre @ [c]) =
     Inr (True, (map (\<lambda>v. v \<noteq> 0) t)[unat (cascade_index pre) := True], True, Inr NULL)"
proof -
  define i where "i = unat (cascade_index pre)"
  define v where "v = base OR ucast HAT_array"
  define s' where "s' = s1\<lparr>mem := (mem s)(root s := Some (RadixNode (t[i := v])),
      base := Some (BaseNode \<lparr>nxt = 2, type = 4, cnt = 1, keys = [1, c] @ replicate 10 0\<rparr>))\<rparr>"
  from tab have r: "root s \<noteq> 0" "mem s (root s) = Some (RadixNode t)"
    by (auto simp: radix_of_def split: if_splits option.splits node.splits)
  from hat_alloc_result [OF al] have s1: "aux s1 = 4" "root s1 = root s" "bootlvl s1 = bootlvl s"
    using aux4 by auto
  note bits = array_slot_bits [OF base(2), folded v_def]
  have new: "hat_new_array s (root s, i) [c] = Inr (Cell base 12, s')"
    using hat_new_array_one [OF al tab _ base(1) base(3) aux4, of i c] i
    by (simp add: i_def s'_def v_def)
  have cell: "hat_cell (Suc (Suc n)) s (pre @ [c]) = Inr (Cell base 12, s')"
    using lvl r i new s1
    by (simp add: hat_cell_def root_index_cascade get_slot_def slots_of_def bnd_simps
        i_def [symmetric] ret_cell_def s'_def)
  have slots: "slots_of s' (root s) = Inr (t[i := v])"
    using r base by (simp add: slots_of_def s'_def)
  have clr: "set_slot s' (root s, i) 0 =
      Inr (s'\<lparr>mem := (mem s')(root s := Some (RadixNode (t[i := 0])))\<rparr>)"
    using r base i by (simp add: set_slot_def s'_def i_def)
  have arr: "deref_base s' (v AND HAT_mask) =
      Inr \<lparr>nxt = 2, type = 4, cnt = 1, keys = [1, c] @ replicate 10 0\<rparr>"
    using base bits by (simp add: deref_base_def s'_def)
  have aux': "aux s' = 4"
    using s1 by (simp add: s'_def)
  have "hat_find (Suc (Suc n)) s' (pre @ [c]) = hat_find_loop (Suc (Suc n)) s' v (pre @ [c]) (length pre)"
    using lvl r i s1 base
    by (simp add: hat_find_def root_index_cascade radix_of_def slot_at_def bnd_simps
        i_def [symmetric] s'_def del: hat_find_loop.simps)
  then have hit: "outcome (hat_find (Suc (Suc n)) s' (pre @ [c])) = Inr (Cell base 12)"
    using find_loop_new_array [OF bits(1) bits(3) arr aux', of "length pre" "pre @ [c]" n] bits(2)
    by simp
  have "hat_find (Suc (Suc n))
      (s'\<lparr>mem := (mem s')(root s := Some (RadixNode (t[i := 0])))\<rparr>) (pre @ [c]) =
    hat_find_loop (Suc (Suc n))
      (s'\<lparr>mem := (mem s')(root s := Some (RadixNode (t[i := 0])))\<rparr>) 0 (pre @ [c])
      (length pre)"
    using lvl r i s1 base
    by (simp add: hat_find_def root_index_cascade radix_of_def slot_at_def bnd_simps
        i_def [symmetric] s'_def del: hat_find_loop.simps)
  then have miss: "outcome (hat_find (Suc (Suc n))
      (s'\<lparr>mem := (mem s')(root s := Some (RadixNode (t[i := 0])))\<rparr>) (pre @ [c])) = Inr NULL"
    by (simp only: find_loop_null)
  show ?thesis
    unfolding cell_then_find_def i_def [symmetric]
    using bits(3) by (simp add: cell slots clr hit miss bnd_simps map_update v_def)
qed


lemma root_outside:
  assumes "unat (bootlvl s) = length pre" and "radix_of s (root s) = Inr t"
    and "\<not> unat (cascade_index pre) < length t"
  shows "hat_cell (Suc n) s (pre @ rest) = Inl OutOfBounds"
    and "hat_find n s (pre @ rest) = Inl OutOfBounds"
proof -
  from assms(2) have r: "root s \<noteq> 0" "mem s (root s) = Some (RadixNode t)"
    by (auto simp: radix_of_def split: if_splits option.splits node.splits)
  show "hat_cell (Suc n) s (pre @ rest) = Inl OutOfBounds"
    using assms r
    by (simp add: hat_cell_def root_index_cascade get_slot_def slots_of_def bnd_simps)
  show "hat_find n s (pre @ rest) = Inl OutOfBounds"
    using assms r
    by (simp add: hat_find_def root_index_cascade slot_at_def bnd_simps)
qed

lemma find_radix_step:
  assumes "nx \<noteq> 0" and "nx AND HAT_type = ucast HAT_radix"
    and "radix_of s (nx AND HAT_mask) = Inr t" and "length t = 128" and "off < length buff"
  shows "hat_find_loop (Suc n) s nx buff off =
     (if unat (buff ! off) < 128
      then hat_find_loop n (s\<lparr>Radix := Radix s + 1\<rparr>) (t ! unat (buff ! off)) buff (off + 1)
      else Inl OutOfBounds)"
  using assms by (simp add: tag_values bnd_simps slot_at_def next_ch_def)

lemma cell_radix_step:
  assumes "get_slot s slt = Inr node" and "node \<noteq> 0"
    and "node AND HAT_type = ucast HAT_radix"
    and "radix_of s (node AND HAT_mask) = Inr t" and "length t = 128" and "off < length buff"
  shows "hat_cell_loop (Suc (Suc n)) s slt parent buff off =
     (if unat (buff ! off) < 128
      then hat_cell_loop (Suc n) s (node AND HAT_mask, unat (buff ! off)) parent buff (off + 1)
      else Inl OutOfBounds)"
proof -
  from assms(4) have r: "node AND HAT_mask \<noteq> 0" "mem s (node AND HAT_mask) = Some (RadixNode t)"
    by (auto simp: radix_of_def split: if_splits option.splits node.splits)
  have step: "hat_cell_loop (Suc (Suc n)) s slt parent buff off =
      hat_cell_loop (Suc n) s (node AND HAT_mask, unat (buff ! off)) parent buff (off + 1)"
    using assms(1, 2, 3, 6) by (simp add: tag_values bnd_simps next_ch_def)
  show ?thesis
  proof (cases "unat (buff ! off) < 128")
    case True
    with step show ?thesis by simp
  next
    case False
    with r assms(5) have "get_slot s (node AND HAT_mask, unat (buff ! off)) = Inl OutOfBounds"
      by (simp add: get_slot_def slots_of_def bnd_simps)
    with step False show ?thesis
      by (simp add: bnd_simps)
  qed
qed

lemma add_radix_step:
  assumes "radix_of s a = Inr t" and "length t = 128"
  shows "hat_add_radix (Suc n) s a (b # rest) val =
     (if unat b < 128
      then if t ! unat b = 0
           then bnd (hat_new_array s (a, unat b) rest) (\<lambda>(cell, s1). store_value s1 cell val)
           else add_radix_loop n s a b (b # rest) val
      else Inl OutOfBounds)"
  using assms by (simp add: bnd_simps slot_at_def)

lemma radix_placed:
  assumes lvl: "unat (bootlvl s) = length pre"
    and rtab: "radix_of s (root s) = Inr rt"
    and j: "unat (cascade_index pre) < length rt" "rt ! unat (cascade_index pre) = node"
    and node: "node \<noteq> 0" "node AND HAT_type = ucast HAT_radix" "node AND HAT_mask \<noteq> root s"
    and tab: "radix_of s (node AND HAT_mask) = Inr t" "length t = 128"
    and b: "unat b < 128" "t ! unat b = 0"
    and aux4: "aux s = 4"
    and al: "hat_alloc s HAT_1 = Inr (base, s1)"
    and base: "base \<noteq> 0" "base AND 7 = 0" "base \<noteq> root s" "base \<noteq> node AND HAT_mask"
  shows "cell_then_find (Suc (Suc (Suc n))) s (node AND HAT_mask) (unat b) (pre @ [b, c]) =
     Inr (True, (map (\<lambda>v. v \<noteq> 0) t)[unat b := True], True, Inr NULL)"
proof -
  define j where "j = unat (cascade_index pre)"
  define a where "a = node AND HAT_mask"
  define v where "v = base OR ucast HAT_array"
  define s' where "s' = s1\<lparr>mem := (mem s)(a := Some (RadixNode (t[unat b := v])),
      base := Some (BaseNode \<lparr>nxt = 2, type = 4, cnt = 1, keys = [1, c] @ replicate 10 0\<rparr>))\<rparr>"
  define s2 where "s2 = s'\<lparr>mem := (mem s')(a := Some (RadixNode (t[unat b := 0])))\<rparr>"
  from rtab have r: "root s \<noteq> 0" "mem s (root s) = Some (RadixNode rt)"
    by (auto simp: radix_of_def split: if_splits option.splits node.splits)
  from tab have ra: "a \<noteq> 0" "mem s a = Some (RadixNode t)"
    by (auto simp: radix_of_def a_def split: if_splits option.splits node.splits)
  from hat_alloc_result [OF al] have s1: "aux s1 = 4" "root s1 = root s" "bootlvl s1 = bootlvl s"
    using aux4 by auto
  note bits = array_slot_bits [OF base(2), folded v_def]
  have key: "drop (Suc (length pre)) (pre @ [b, c]) = [c]" "(pre @ [b, c]) ! length pre = b"
    "length pre < length (pre @ [b, c])"
    by simp_all
  have new: "hat_new_array s (a, unat b) [c] = Inr (Cell base 12, s')"
    using hat_new_array_one [OF al tab(1) _ base(1) base(4) aux4, of "unat b" c] b tab(2)
    by (simp add: s'_def v_def a_def)
  have slot0: "get_slot s (root s, j) = Inr node"
    using r j by (simp add: get_slot_def slots_of_def bnd_simps j_def)
  have cell: "hat_cell (Suc (Suc (Suc n))) s (pre @ [b, c]) = Inr (Cell base 12, s')"
  proof -
    have "hat_cell (Suc (Suc (Suc n))) s (pre @ [b, c]) =
        hat_cell_loop (Suc (Suc (Suc n))) s (root s, j) None (pre @ [b, c]) (length pre)"
      using lvl by (simp add: hat_cell_def root_index_cascade j_def del: hat_cell_loop.simps)
    also have "\<dots> = hat_cell_loop (Suc (Suc n)) s (a, unat b) None (pre @ [b, c]) (length pre + 1)"
      using cell_radix_step [OF slot0 node(1) node(2) tab key(3), of "Suc n" None] b key(2)
      by (simp add: a_def del: hat_cell_loop.simps)
    also have "\<dots> = Inr (Cell base 12, s')"
      using ra b tab(2) new s1 key(1)
      by (simp add: get_slot_def slots_of_def bnd_simps ret_cell_def s'_def)
    finally show ?thesis .
  qed
  have slots: "slots_of s' a = Inr (t[unat b := v])"
    using ra base by (simp add: slots_of_def s'_def a_def)
  have clr: "set_slot s' (a, unat b) 0 = Inr s2"
    using ra base b tab(2) by (simp add: set_slot_def s'_def s2_def a_def)
  have arr: "deref_base (s'\<lparr>Radix := Radix s' + 1\<rparr>) (v AND HAT_mask) =
      Inr \<lparr>nxt = 2, type = 4, cnt = 1, keys = [1, c] @ replicate 10 0\<rparr>"
    using base bits by (simp add: deref_base_def s'_def)
  have aux': "aux (s'\<lparr>Radix := Radix s' + 1\<rparr>) = 4"
    using s1 by (simp add: s'_def)
  have root': "radix_of s' (root s') = Inr rt" "radix_of s2 (root s2) = Inr rt"
    "bootlvl s' = bootlvl s" "bootlvl s2 = bootlvl s"
    using r s1 base node(3) by (simp_all add: radix_of_def s'_def s2_def a_def)
  have tab': "radix_of s' (node AND HAT_mask) = Inr (t[unat b := v])"
    "radix_of s2 (node AND HAT_mask) = Inr (t[unat b := 0])"
    using ra base by (simp_all add: radix_of_def s'_def s2_def a_def)
  have hit: "outcome (hat_find (Suc (Suc (Suc n))) s' (pre @ [b, c])) = Inr (Cell base 12)"
  proof -
    have "hat_find (Suc (Suc (Suc n))) s' (pre @ [b, c]) =
        hat_find_loop (Suc (Suc (Suc n))) s' node (pre @ [b, c]) (length pre)"
      using lvl j root'
      by (simp add: hat_find_def root_index_cascade slot_at_def bnd_simps
          del: hat_find_loop.simps)
    also have "\<dots> = hat_find_loop (Suc (Suc n)) (s'\<lparr>Radix := Radix s' + 1\<rparr>) v (pre @ [b, c])
        (length pre + 1)"
      using find_radix_step [OF node(1) node(2) tab'(1) _ key(3), of "Suc (Suc n)"] b tab(2) key(2)
      by (simp del: hat_find_loop.simps)
    finally show ?thesis
      using find_loop_new_array [OF bits(1) bits(3) arr aux', of "length pre + 1" "pre @ [b, c]" n]
        bits(2) key(1)
      by simp
  qed
  have miss: "outcome (hat_find (Suc (Suc (Suc n))) s2 (pre @ [b, c])) = Inr NULL"
  proof -
    have "hat_find (Suc (Suc (Suc n))) s2 (pre @ [b, c]) =
        hat_find_loop (Suc (Suc (Suc n))) s2 node (pre @ [b, c]) (length pre)"
      using lvl j root'
      by (simp add: hat_find_def root_index_cascade slot_at_def bnd_simps
          del: hat_find_loop.simps)
    also have "\<dots> = hat_find_loop (Suc (Suc n)) (s2\<lparr>Radix := Radix s2 + 1\<rparr>) 0 (pre @ [b, c])
        (length pre + 1)"
      using find_radix_step [OF node(1) node(2) tab'(2) _ key(3), of "Suc (Suc n)"] b tab(2) key(2)
      by (simp del: hat_find_loop.simps)
    finally show ?thesis
      by (simp only: find_loop_null)
  qed
  show ?thesis
    unfolding cell_then_find_def a_def [symmetric]
    using bits(3) by (simp add: cell slots clr hit miss bnd_simps map_update v_def)
qed


lemma next_ch_rest:
  assumes "drop off buff = drop off' buff'"
  shows "fst (next_ch buff off) = fst (next_ch buff' off')"
    and "drop (snd (next_ch buff off)) buff = drop (snd (next_ch buff' off')) buff'"
proof -
  show "fst (next_ch buff off) = fst (next_ch buff' off')"
  proof (cases "off < length buff")
    case True
    with assms have "off' < length buff'"
      by (metis drop_eq_Nil not_le_imp_less leD)
    with True assms show ?thesis
      by (simp add: next_ch_def) (metis nth_via_drop Cons_nth_drop_Suc)
  next
    case False
    with assms have "\<not> off' < length buff'"
      by (metis drop_eq_Nil not_le_imp_less leD)
    with False show ?thesis
      by (simp add: next_ch_def)
  qed
  show "drop (snd (next_ch buff off)) buff = drop (snd (next_ch buff' off')) buff'"
  proof (cases "off < length buff")
    case True
    with assms have "off' < length buff'"
      by (metis drop_eq_Nil not_le_imp_less leD)
    with True assms show ?thesis
      by (simp add: next_ch_def) (metis list.inject Cons_nth_drop_Suc)
  next
    case False
    with assms have "\<not> off' < length buff'"
      by (metis drop_eq_Nil not_le_imp_less leD)
    with False assms show ?thesis
      by (simp add: next_ch_def)
  qed
qed

lemma hat_find_loop_rest:
  "drop off buff = drop off' buff' \<Longrightarrow>
   hat_find_loop n s nx buff off = hat_find_loop n s nx buff' off'"
proof (induction n arbitrary: s nx off off')
  case 0
  then show ?case by simp
next
  case (Suc n)
  note ch = next_ch_rest [OF Suc.prems]
  show ?case
    using Suc.prems ch(1)
    by (auto simp: bnd_def split: sum.splits intro!: Suc.IH ch(2))
qed

lemma hat_cell_loop_rest:
  "drop off buff = drop off' buff' \<Longrightarrow>
   hat_cell_loop n s slt parent buff off = hat_cell_loop n s slt parent buff' off'"
proof (induction n arbitrary: s slt parent off off')
  case 0
  then show ?case by simp
next
  case (Suc n)
  note ch = next_ch_rest [OF Suc.prems]
  have ih1: "\<And>s slt parent.
      hat_cell_loop n s slt parent buff off = hat_cell_loop n s slt parent buff' off'"
    by (rule Suc.IH [OF Suc.prems])
  have ih2: "\<And>s slt parent.
      hat_cell_loop n s slt parent buff (snd (next_ch buff off)) =
      hat_cell_loop n s slt parent buff' (snd (next_ch buff' off'))"
    by (rule Suc.IH [OF ch(2)])
  show ?case
    by (simp only: hat_cell_loop.simps ih1 ih2 Suc.prems ch(1))
qed

lemma same_index_same_subtree:
  assumes "unat (bootlvl s) = length pre" and "length pre' = length pre"
    and "cascade_index pre' = cascade_index pre"
  shows "hat_find n s (pre' @ rest) = hat_find n s (pre @ rest)"
    and "hat_cell n s (pre' @ rest) = hat_cell n s (pre @ rest)"
proof -
  have d: "drop (length pre') (pre' @ rest) = drop (length pre) (pre @ rest)"
    by simp
  have r: "root_index (unat (bootlvl s)) 0 (pre @ rest) 0 = (cascade_index pre, length pre)"
    using root_index_cascade [of pre rest] assms(1) by simp
  have r': "root_index (unat (bootlvl s)) 0 (pre' @ rest) 0 = (cascade_index pre, length pre')"
    using root_index_cascade [of pre' rest] assms by simp
  show "hat_find n s (pre' @ rest) = hat_find n s (pre @ rest)"
    by (simp add: hat_find_def r r' hat_find_loop_rest [OF d] del: hat_find_loop.simps)
  show "hat_cell n s (pre' @ rest) = hat_cell n s (pre @ rest)"
    by (simp add: hat_cell_def r r' hat_cell_loop_rest [OF d] del: hat_cell_loop.simps)
qed


lemma first_segment_aligned: "(1::64 word) * 4294967296 AND 7 = 0" by code_simp
lemma first_block: "(4294967312 :: 64 word) AND 7 = 0" by code_simp
lemma second_block: "(4294968336 :: 64 word) AND 7 = 0" by code_simp
lemma size_masks: "(1024 :: 32 word) AND 7 = 0" "(16 :: 32 word) AND 7 = 0" by code_simp+

lemma fresh_container:
  "boot \<noteq> 0 \<Longrightarrow>
   \<exists>s s1. hat_open boot 4 = Inr s \<and> bootlvl s = boot \<and> aux s = 4 \<and> root s = 4295492016 \<and>
     radix_of s (root s) = Inr (replicate (128 ^ unat boot) 0) \<and>
     hat_alloc s HAT_1 = Inr (4294967312, s1)"
  by (simp add: hat_open_def hat_alloc_def HatSize_def HatSizeTable_def zero_node_def
      round_up_def bnd_simps malloc_addr_def HAT_seg_def HAT_bucket_def HAT_radix_def HAT_1_def
      HAT_cache_line_def HAT_pail_def HAT_node_size_def Let_def radix_of_def first_segment_aligned
      size_masks sizeof_HatBase_def)

lemma radix_container:
  "\<exists>s1. radix_addr = 4294967312 \<and>
     unat (bootlvl radix_hat) = 1 \<and> aux radix_hat = 4 \<and> root radix_hat = 4295492016 \<and>
     radix_of radix_hat (root radix_hat) = Inr ((replicate 128 0)[72 := 4294967312]) \<and>
     radix_of radix_hat 4294967312 = Inr (replicate 128 0) \<and>
     hat_alloc radix_hat HAT_1 = Inr (4294968336, s1)"
  by (simp add: radix_hat_def radix_addr_def radix_built_def hat_open_def hat_alloc_def HatSize_def
      HatSizeTable_def zero_node_def set_slot_def
      round_up_def bnd_simps malloc_addr_def HAT_seg_def HAT_bucket_def HAT_radix_def HAT_1_def
      HAT_cache_line_def HAT_pail_def HAT_node_size_def Let_def radix_of_def first_segment_aligned
      size_masks sizeof_HatBase_def)

lemma first_block_bits:
  "(4294967312 :: HatSlot) AND HAT_type = 0" "(4294967312 :: HatSlot) AND HAT_mask = 4294967312"
  by code_simp+

lemma fresh_placed:
  assumes boot: "boot \<noteq> 0" and small: "unat boot \<le> 4" and pre: "length pre = unat boot"
  shows "bnd (hat_open boot 4) (\<lambda>s.
       cell_then_find (Suc (Suc n)) s (root s) (unat (cascade_index pre)) (pre @ [c])) =
     (if unat (cascade_index pre) < 128 ^ unat boot
      then Inr (True, (replicate (128 ^ unat boot) False)[unat (cascade_index pre) := True],
                True, Inr NULL)
      else Inl OutOfBounds)"
proof -
  from fresh_container [OF boot] obtain s s1 where s: "hat_open boot 4 = Inr s"
      "bootlvl s = boot" "aux s = 4" "root s = 4295492016"
      "radix_of s (root s) = Inr (replicate (128 ^ unat boot) 0)"
      "hat_alloc s HAT_1 = Inr (4294967312, s1)"
    by blast
  from s(2) pre have lvl: "unat (bootlvl s) = length pre"
    by simp
  show ?thesis
  proof (cases "unat (cascade_index pre) < 128 ^ unat boot")
    case True
    from root_placed [OF lvl s(5) _ _ s(3) s(6), of n c] True s(4) first_block
    show ?thesis
      by (simp add: s(1) bnd_simps)
  next
    case False
    from root_outside(1) [OF lvl s(5), of "Suc n" "[c]"] False
    show ?thesis
      by (simp add: s(1) bnd_simps cell_then_find_def del: hat_cell_loop.simps)
  qed
qed

lemma radix_hat_placed:
  "cell_then_find (Suc (Suc (Suc n))) radix_hat radix_addr (unat b) [72, b, c] =
     (if unat b < 128
      then Inr (True, (replicate 128 False)[unat b := True], True, Inr NULL)
      else Inl OutOfBounds)"
proof -
  from radix_container obtain s1 where s: "radix_addr = 4294967312"
      "unat (bootlvl radix_hat) = 1" "aux radix_hat = 4" "root radix_hat = 4295492016"
      "radix_of radix_hat (root radix_hat) = Inr ((replicate 128 0)[72 := 4294967312])"
      "radix_of radix_hat 4294967312 = Inr (replicate 128 0)"
      "hat_alloc radix_hat HAT_1 = Inr (4294968336, s1)"
    by blast
  have idx: "unat (cascade_index [72]) = 72"
    by (simp add: cascade_index_def)
  have lvl: "unat (bootlvl radix_hat) = length [72 :: uchar]"
    using s(2) by simp
  have tab: "radix_of radix_hat (4294967312 AND HAT_mask) = Inr (replicate 128 0)"
    using s(6) by (simp add: first_block_bits)
  show ?thesis
  proof (cases "unat b < 128")
    case True
    from radix_placed [OF lvl s(5) _ _ _ _ _ tab _ True _ s(3) s(7), of n c] True s(4)
      second_block idx
    show ?thesis
      by (simp add: s(1) first_block_bits tag_values)
  next
    case False
    have slot0: "get_slot radix_hat (root radix_hat, 72) = Inr 4294967312"
      using s(5) by (auto simp: get_slot_def slots_of_def radix_of_def bnd_simps
          split: if_splits option.splits node.splits)
    have "hat_cell (Suc (Suc (Suc n))) radix_hat [72, b, c] =
        hat_cell_loop (Suc (Suc (Suc n))) radix_hat (root radix_hat, 72) None [72, b, c] 1"
      using root_index_cascade [of "[72]" "[b, c]"] s(2) idx
      by (simp add: hat_cell_def del: hat_cell_loop.simps root_index.simps)
    also have "\<dots> = Inl OutOfBounds"
      using cell_radix_step [OF slot0 _ _ tab, of 1 "[72, b, c]" "Suc n" None] False
      by (simp add: first_block_bits tag_values del: hat_cell_loop.simps)
    finally show ?thesis
      using False by (simp add: cell_then_find_def bnd_simps del: hat_cell_loop.simps)
  qed
qed


lemma root_step:
  assumes "unat (bootlvl s) = length pre" and "radix_of s (root s) = Inr rt"
  shows "hat_find n s (pre @ rest) =
     (if unat (cascade_index pre) < length rt
      then hat_find_loop n s (rt ! unat (cascade_index pre)) (pre @ rest) (length pre)
      else Inl OutOfBounds)"
    and "hat_cell (Suc n) s (pre @ rest) =
     (if unat (cascade_index pre) < length rt
      then hat_cell_loop (Suc n) s (root s, unat (cascade_index pre)) None (pre @ rest)
             (length pre)
      else Inl OutOfBounds)"
proof -
  show "hat_find n s (pre @ rest) =
     (if unat (cascade_index pre) < length rt
      then hat_find_loop n s (rt ! unat (cascade_index pre)) (pre @ rest) (length pre)
      else Inl OutOfBounds)"
    using assms
    by (simp add: hat_find_def root_index_cascade slot_at_def bnd_simps
        del: hat_find_loop.simps)
  show "hat_cell (Suc n) s (pre @ rest) =
     (if unat (cascade_index pre) < length rt
      then hat_cell_loop (Suc n) s (root s, unat (cascade_index pre)) None (pre @ rest)
             (length pre)
      else Inl OutOfBounds)"
    using assms root_outside(1) [OF assms, of n rest]
    by (simp add: hat_cell_def root_index_cascade del: hat_cell_loop.simps)
qed

text \<open>
  Claim C5, as it is stated, fails.  With one root level and the key \<open>H\<close> (72) stored,
  the key of the one byte 200 = 72 + 128 is not looked up from slot 72, where it would be
  found: search and insertion index the 128 slots of the root table with 200, outside
  the table.
\<close>

theorem C5_high_bit_not_masked:
  "outcome (hat_find 10 witness_hat [72]) = Inr One \<and>
   outcome (hat_find 10 witness_hat [200]) = Inl OutOfBounds \<and>
   outcome (hat_cell 10 witness_hat [200]) = Inl OutOfBounds"
  by code_simp

text \<open>
  Claim C5, amended.  Where insertion or search consumes a key byte at a root level or at
  a radix node, the byte is used as it is, with no mask.

  Root levels: the root index is \<open>cascade_index\<close> of the bytes of the root levels.  A byte
  \<open>b \<ge> 128\<close> at the last root level gives the index of \<open>b - 128\<close> plus 128, which is the
  index of the key whose byte before is one more and whose byte is \<open>b - 128\<close>.  \<open>hat_find\<close>
  and \<open>hat_cell\<close> go on from the slot of that index, or index outside the root table; keys
  whose root bytes give the same index are not told apart.  In a container with four aux
  bytes whose indexed root slot is empty, and in every container that \<open>hat_open\<close> gives
  with one to four root levels, the key with one more byte is placed in the indexed slot
  and no other slot changes, \<open>hat_find\<close> returns its cell, and misses it once that slot is
  cleared.

  Radix nodes: \<open>hat_find\<close>, \<open>hat_cell\<close> and \<open>hat_add_radix\<close> go on from slot \<open>b\<close> of the 128
  slots when \<open>b < 128\<close> and index outside the table when \<open>b \<ge> 128\<close>; under a radix node
  below the root the key is placed in slot \<open>b\<close> and found from it in the same way.
\<close>

theorem key_byte_indexes_unmasked:
  "root_index (length pre) 0 (pre @ rest) 0 = (cascade_index pre, length pre)
   \<and> (128 \<le> unat b \<longrightarrow>
        cascade_index (pre @ [b]) = cascade_index (pre @ [b - 128]) + 128)
   \<and> (128 \<le> unat b \<and> unat a < 255 \<longrightarrow>
        cascade_index (pre @ [a, b]) = cascade_index (pre @ [a + 1, b - 128]))
   \<and> (unat (bootlvl s) = length pre \<and> radix_of s (root s) = Inr rt \<longrightarrow>
        hat_find n s (pre @ rest) =
          (if unat (cascade_index pre) < length rt
           then hat_find_loop n s (rt ! unat (cascade_index pre)) (pre @ rest) (length pre)
           else Inl OutOfBounds) \<and>
        hat_cell (Suc n) s (pre @ rest) =
          (if unat (cascade_index pre) < length rt
           then hat_cell_loop (Suc n) s (root s, unat (cascade_index pre)) None (pre @ rest)
                  (length pre)
           else Inl OutOfBounds))
   \<and> (unat (bootlvl s) = length pre \<and> length pre' = length pre \<and>
      cascade_index pre' = cascade_index pre \<longrightarrow>
        hat_find n s (pre' @ rest) = hat_find n s (pre @ rest) \<and>
        hat_cell n s (pre' @ rest) = hat_cell n s (pre @ rest))
   \<and> (unat (bootlvl s) = length pre \<and> radix_of s (root s) = Inr rt \<and>
      unat (cascade_index pre) < length rt \<and> rt ! unat (cascade_index pre) = 0 \<and>
      aux s = 4 \<and> hat_alloc s HAT_1 = Inr (base, snew) \<and>
      base \<noteq> 0 \<and> base AND 7 = 0 \<and> base \<noteq> root s \<longrightarrow>
        cell_then_find (Suc (Suc n)) s (root s) (unat (cascade_index pre)) (pre @ [c]) =
          Inr (True, (map (\<lambda>v. v \<noteq> 0) rt)[unat (cascade_index pre) := True], True, Inr NULL))
   \<and> (boot \<noteq> 0 \<and> unat boot \<le> 4 \<and> length pre = unat boot \<longrightarrow>
        bnd (hat_open boot 4) (\<lambda>s0.
          cell_then_find (Suc (Suc n)) s0 (root s0) (unat (cascade_index pre)) (pre @ [c])) =
          (if unat (cascade_index pre) < 128 ^ unat boot
           then Inr (True, (replicate (128 ^ unat boot) False)[unat (cascade_index pre) := True],
                     True, Inr NULL)
           else Inl OutOfBounds))
   \<and> (nx \<noteq> 0 \<and> nx AND HAT_type = ucast HAT_radix \<and>
      radix_of s (nx AND HAT_mask) = Inr t \<and> length t = 128 \<and> off < length buff \<longrightarrow>
        hat_find_loop (Suc n) s nx buff off =
          (if unat (buff ! off) < 128
           then hat_find_loop n (s\<lparr>Radix := Radix s + 1\<rparr>) (t ! unat (buff ! off)) buff (off + 1)
           else Inl OutOfBounds))
   \<and> (get_slot s slt = Inr node \<and> node \<noteq> 0 \<and> node AND HAT_type = ucast HAT_radix \<and>
      radix_of s (node AND HAT_mask) = Inr t \<and> length t = 128 \<and> off < length buff \<longrightarrow>
        hat_cell_loop (Suc (Suc n)) s slt parent buff off =
          (if unat (buff ! off) < 128
           then hat_cell_loop (Suc n) s (node AND HAT_mask, unat (buff ! off)) parent buff
                  (off + 1)
           else Inl OutOfBounds))
   \<and> (radix_of s ra = Inr t \<and> length t = 128 \<longrightarrow>
        hat_add_radix (Suc n) s ra (b # rest) val =
          (if unat b < 128
           then if t ! unat b = 0
                then bnd (hat_new_array s (ra, unat b) rest)
                       (\<lambda>(cell, s2). store_value s2 cell val)
                else add_radix_loop n s ra b (b # rest) val
           else Inl OutOfBounds))
   \<and> (unat (bootlvl s) = length pre \<and> radix_of s (root s) = Inr rt \<and>
      unat (cascade_index pre) < length rt \<and> rt ! unat (cascade_index pre) = node \<and>
      node \<noteq> 0 \<and> node AND HAT_type = ucast HAT_radix \<and> node AND HAT_mask \<noteq> root s \<and>
      radix_of s (node AND HAT_mask) = Inr t \<and> length t = 128 \<and>
      unat b < 128 \<and> t ! unat b = 0 \<and>
      aux s = 4 \<and> hat_alloc s HAT_1 = Inr (base, snew) \<and>
      base \<noteq> 0 \<and> base AND 7 = 0 \<and> base \<noteq> root s \<and> base \<noteq> node AND HAT_mask \<longrightarrow>
        cell_then_find (Suc (Suc (Suc n))) s (node AND HAT_mask) (unat b) (pre @ [b, c]) =
          Inr (True, (map (\<lambda>v. v \<noteq> 0) t)[unat b := True], True, Inr NULL))
   \<and> cell_then_find (Suc (Suc (Suc n))) radix_hat radix_addr (unat b) [72, b, c] =
        (if unat b < 128
         then Inr (True, (replicate 128 False)[unat b := True], True, Inr NULL)
         else Inl OutOfBounds)"
proof (intro conjI impI; (elim conjE)?)
  show "root_index (length pre) 0 (pre @ rest) 0 = (cascade_index pre, length pre)"
    by (rule root_index_cascade)
qed (rule high_bit_index high_bit_carry root_step same_index_same_subtree root_placed
    fresh_placed find_radix_step cell_radix_step add_radix_step radix_placed radix_hat_placed;
    assumption)+


theorem key_byte_indexes_unmasked_witness:
  "root_index 2 0 [1, 200, 7] 0 = (328, 2)
   \<and> cascade_index [200] = cascade_index [72] + 128
   \<and> cascade_index [1, 200] = cascade_index [2, 72]
   \<and> (\<exists>s. hat_open 1 4 = Inr s \<and>
        hat_find 4 s [200, 7] = Inl OutOfBounds \<and> hat_cell 5 s [200, 7] = Inl OutOfBounds)
   \<and> (\<exists>s. hat_open 2 4 = Inr s \<and>
        hat_find 5 s [1, 200, 7] = hat_find 5 s [2, 72, 7] \<and>
        hat_cell 5 s [1, 200, 7] = hat_cell 5 s [2, 72, 7] \<and>
        cell_then_find 5 s (root s) 328 [1, 200, 7] =
          Inr (True, (replicate 16384 False)[328 := True], True, Inr NULL))
   \<and> bnd (hat_open 1 4) (\<lambda>s. cell_then_find 5 s (root s) 72 [72, 7]) =
        Inr (True, (replicate 128 False)[72 := True], True, Inr NULL)
   \<and> hat_find_loop 5 radix_hat radix_addr [72, 229, 7] 1 = Inl OutOfBounds
   \<and> hat_cell_loop 5 radix_hat (root radix_hat, 72) None [72, 229, 7] 1 = Inl OutOfBounds
   \<and> hat_add_radix 5 radix_hat radix_addr [229, 7] NULL = Inl OutOfBounds
   \<and> cell_then_find 5 radix_hat radix_addr 101 [72, 101, 7] =
        Inr (True, (replicate 128 False)[101 := True], True, Inr NULL)"
proof -
  have i1: "cascade_index [1, 200] = 328" "cascade_index [2, 72] = 328"
    "cascade_index [200] = 200" "cascade_index [72] = 72"
    by (simp_all add: cascade_index_def)
  have u: "unat (328 :: uint) = 328" "unat (200 :: uint) = 200" "unat (72 :: uint) = 72"
    "unat (2 :: uint) = 2" "unat (1 :: uint) = 1"
    by simp_all
  have w1: "root_index 2 0 [1, 200, 7] 0 = (328, 2)"
    using key_byte_indexes_unmasked [where pre = "[1, 200]" and rest = "[7]",
        THEN conjunct1]
    by (simp add: i1 numeral_2_eq_2 del: root_index.simps)
  have w2: "cascade_index [200] = cascade_index [72] + 128"
    using key_byte_indexes_unmasked [where b = 200 and pre = "[]",
        THEN conjunct2, THEN conjunct1, rule_format]
    by simp
  have w3: "cascade_index [1, 200] = cascade_index [2, 72]"
    using key_byte_indexes_unmasked [where a = 1 and b = 200 and pre = "[]",
        THEN conjunct2, THEN conjunct2, THEN conjunct1, rule_format]
    by simp
  from fresh_container [of 1] obtain sa sa1 where sa: "hat_open 1 4 = Inr sa"
      "bootlvl sa = 1" "aux sa = 4" "root sa = 4295492016"
      "radix_of sa (root sa) = Inr (replicate 128 0)"
      "hat_alloc sa HAT_1 = Inr (4294967312, sa1)"
    by auto
  from fresh_container [of 2] obtain sb sb1 where sb: "hat_open 2 4 = Inr sb"
      "bootlvl sb = 2" "aux sb = 4" "root sb = 4295492016"
      "radix_of sb (root sb) = Inr (replicate 16384 0)"
      "hat_alloc sb HAT_1 = Inr (4294967312, sb1)"
    by auto
  have w4: "hat_find 4 sa [200, 7] = Inl OutOfBounds \<and> hat_cell 5 sa [200, 7] = Inl OutOfBounds"
    using key_byte_indexes_unmasked [where s = sa and pre = "[200]" and rt = "replicate 128 0" and rest = "[7]" and n = 4,
        THEN conjunct2, THEN conjunct2, THEN conjunct2, THEN conjunct1, rule_format]
      sa(2, 5)
    by (simp add: i1 u)
  have w5: "hat_find 5 sb [1, 200, 7] = hat_find 5 sb [2, 72, 7] \<and>
      hat_cell 5 sb [1, 200, 7] = hat_cell 5 sb [2, 72, 7]"
    using key_byte_indexes_unmasked [where s = sb and pre = "[2, 72]" and pre' = "[1, 200]" and rest = "[7]" and n = 5,
        THEN conjunct2, THEN conjunct2, THEN conjunct2, THEN conjunct2, THEN conjunct1, rule_format]
      sb(2)
    by (simp add: i1 u)
  have w6: "cell_then_find 5 sb (root sb) 328 [1, 200, 7] =
      Inr (True, (replicate 16384 False)[328 := True], True, Inr NULL)"
    using key_byte_indexes_unmasked [where s = sb and pre = "[1, 200]" and rt = "replicate 16384 0" and base = 4294967312
        and snew = sb1 and n = 3 and c = 7,
        THEN conjunct2, THEN conjunct2, THEN conjunct2, THEN conjunct2, THEN conjunct2, THEN conjunct1, rule_format]
      sb(2, 3, 4, 5, 6) first_block
    by (simp add: i1 u)
  have w7: "bnd (hat_open 1 4) (\<lambda>s. cell_then_find 5 s (root s) 72 [72, 7]) =
      Inr (True, (replicate 128 False)[72 := True], True, Inr NULL)"
    using key_byte_indexes_unmasked [where boot = 1 and pre = "[72]" and n = 3 and c = 7,
        THEN conjunct2, THEN conjunct2, THEN conjunct2, THEN conjunct2, THEN conjunct2, THEN conjunct2, THEN conjunct1, rule_format]
    by (simp add: i1 u)
  from radix_container obtain sr where r: "radix_addr = 4294967312"
      "unat (bootlvl radix_hat) = 1" "aux radix_hat = 4" "root radix_hat = 4295492016"
      "radix_of radix_hat (root radix_hat) = Inr ((replicate 128 0)[72 := 4294967312])"
      "radix_of radix_hat 4294967312 = Inr (replicate 128 0)"
      "hat_alloc radix_hat HAT_1 = Inr (4294968336, sr)"
    by blast
  have slot0: "get_slot radix_hat (root radix_hat, 72) = Inr 4294967312"
    using r(5) by (auto simp: get_slot_def slots_of_def radix_of_def bnd_simps
        split: if_splits option.splits node.splits)
  have w8: "hat_find_loop 5 radix_hat radix_addr [72, 229, 7] 1 = Inl OutOfBounds"
    using key_byte_indexes_unmasked [where nx = 4294967312 and s = radix_hat and t = "replicate 128 0" and off = 1
        and buff = "[72, 229, 7]" and n = 4,
        THEN conjunct2, THEN conjunct2, THEN conjunct2, THEN conjunct2, THEN conjunct2, THEN conjunct2, THEN conjunct2, THEN conjunct1, rule_format]
      r(6)
    by (simp add: r(1) first_block_bits tag_values)
  have w9: "hat_cell_loop 5 radix_hat (root radix_hat, 72) None [72, 229, 7] 1 = Inl OutOfBounds"
    using key_byte_indexes_unmasked [where s = radix_hat and slt = "(root radix_hat, 72)" and node = 4294967312
        and t = "replicate 128 0" and off = 1 and buff = "[72, 229, 7]" and n = 3
        and parent = None,
        THEN conjunct2, THEN conjunct2, THEN conjunct2, THEN conjunct2, THEN conjunct2, THEN conjunct2, THEN conjunct2, THEN conjunct2, THEN conjunct1, rule_format]
      r(6) slot0
    by (simp add: first_block_bits tag_values)
  have w10: "hat_add_radix 5 radix_hat radix_addr [229, 7] NULL = Inl OutOfBounds"
    using key_byte_indexes_unmasked [where s = radix_hat and ra = 4294967312 and t = "replicate 128 0" and b = 229
        and rest = "[7]" and val = NULL and n = 4,
        THEN conjunct2, THEN conjunct2, THEN conjunct2, THEN conjunct2, THEN conjunct2, THEN conjunct2, THEN conjunct2, THEN conjunct2, THEN conjunct2, THEN conjunct1, rule_format]
      r(6)
    by (simp add: r(1))
  have w11: "cell_then_find 5 radix_hat radix_addr 101 [72, 101, 7] =
      Inr (True, (replicate 128 False)[101 := True], True, Inr NULL)"
    using key_byte_indexes_unmasked [where s = radix_hat and pre = "[72]" and rt = "(replicate 128 0)[72 := 4294967312]"
        and node = 4294967312 and t = "replicate 128 0" and b = 101 and base = 4294968336
        and snew = sr and n = 2 and c = 7,
        THEN conjunct2, THEN conjunct2, THEN conjunct2, THEN conjunct2, THEN conjunct2, THEN conjunct2, THEN conjunct2, THEN conjunct2, THEN conjunct2, THEN conjunct2, THEN conjunct1, rule_format]
      r(2, 3, 4, 5, 6, 7) second_block
    by (simp add: r(1) i1 u first_block_bits tag_values)
  from w4 sa(1) have e1: "\<exists>s. hat_open 1 4 = Inr s \<and>
        hat_find 4 s [200, 7] = Inl OutOfBounds \<and> hat_cell 5 s [200, 7] = Inl OutOfBounds"
    by blast
  from w5 w6 sb(1) have e2: "\<exists>s. hat_open 2 4 = Inr s \<and>
        hat_find 5 s [1, 200, 7] = hat_find 5 s [2, 72, 7] \<and>
        hat_cell 5 s [1, 200, 7] = hat_cell 5 s [2, 72, 7] \<and>
        cell_then_find 5 s (root s) 328 [1, 200, 7] =
          Inr (True, (replicate 16384 False)[328 := True], True, Inr NULL)"
    by blast
  from w1 w2 w3 e1 e2 w7 w8 w9 w10 w11 show ?thesis
    by blast
qed

subsection \<open>The cursor on the empty container\<close>

lemma segment_aligned: "(1::64 word) * 4294967296 AND 7 = 0" by code_simp
lemma bucket_slot_value: "(4294967312 :: 64 word) OR 1 = 4294967313" by code_simp
lemma bucket_size_aligned: "(16376 :: 32 word) AND 7 = 0" by code_simp
lemma bucket_size_rounded: "(16384 :: 32 word) AND 7 = 0" by code_simp
lemma bucket_slot_tag: "(4294967313 :: 64 word) AND HAT_type = 1" by code_simp
lemma bucket_slot_addr: "(4294967313 :: 64 word) AND HAT_mask = 4294967312" by code_simp
lemma root_addr_aligned: "(4295492016 :: 64 word) AND HAT_mask = 4295492016" by code_simp

lemma hat_open_empty:
  "\<exists>s. hat_open 0 0 = Inr s \<and> empty_hat s"
  by (simp add: hat_open_def hat_alloc_def HatSize_def HatSizeTable_def zero_node_def
      round_up_def set_slot_def bnd_def malloc_addr_def HAT_seg_def HAT_bucket_def HAT_radix_def
      HAT_cache_line_def HatBucketSlots_def HAT_pail_def Let_def segment_aligned bucket_slot_value bucket_size_aligned bucket_size_rounded empty_hat_def)

lemma sort_bucket_loop_zeros:
  "sort_bucket_loop n s caux ks k (replicate m 0) = Inr (ks, k)"
  by (induction m) (simp_all add: tag_values)

lemma hat_sort_empty_bucket:
  "empty_hat s \<Longrightarrow> stack_get (cur_next c) (cur_top c) = Inr 4294967313 \<Longrightarrow>
   hat_sort (Suc (Suc n)) s c = Inr (c\<lparr>cur_keys := cur_keys c, cur_cnt := 0, draws := draws c\<rparr>)"
  by (simp add: hat_sort_def bnd_def tag_values bucket_slot_tag bucket_slot_addr deref_bucket_def table_prefix_def
      HatBucketSlots_def sort_bucket_loop_zeros empty_hat_def)

lemma hat_last_empty:
  "empty_hat s \<Longrightarrow>
   \<exists>c. hat_last (Suc (Suc (Suc n))) s (hat_cursor s dr) = Inr (True, c) \<and>
       cur_cnt c = 0 \<and> cur_idx c = - 1 \<and> cur_top c = 1"
  apply (frule hat_sort_empty_bucket [where n = n and c = "(hat_cursor s dr)\<lparr>rootscan := 0, cur_top := 1,
      cur_next := (cur_next (hat_cursor s dr))[1 := 4294967313]\<rparr>"])
   apply (simp add: stack_get_def hat_cursor_def)
  apply (simp add: hat_last_def bnd_def stack_get_def stack_set_def radix_of_def slot_at_def push_def
      hat_cursor_def tag_values bucket_slot_tag bucket_slot_addr empty_hat_def)
  done


lemma hat_key_before_first:
  "cur_top c = 1 \<Longrightarrow> cur_idx c = - 1 \<Longrightarrow> hat_key s c max0 = Inl OutOfBounds"
  by (simp add: hat_key_def sort_get_def bnd_def)

lemma keys_descending_empty:
  "empty_hat s \<Longrightarrow> keys_descending (Suc (Suc (Suc n))) s dr max0 = Inl OutOfBounds"
  using hat_last_empty [of s n dr]
  by (auto simp add: keys_descending_def bnd_def hat_key_before_first)

lemma hat_start_empty:
  "empty_hat s \<Longrightarrow> hat_start (Suc (Suc (Suc (Suc (Suc (Suc n)))))) s (hat_cursor s dr) [] = Inr None"
  apply (frule hat_sort_empty_bucket [where n = "Suc (Suc (Suc n))" and c = "(hat_cursor s dr)\<lparr>rootscan := 0, cur_top := 1,
      cur_next := (cur_next (hat_cursor s dr))[1 := 4294967313]\<rparr>"])
   apply (simp add: stack_get_def hat_cursor_def)
  apply (simp add: hat_start_def bnd_def stack_get_def stack_set_def radix_of_def slot_at_def push_def
      hat_cursor_def tag_values bucket_slot_tag bucket_slot_addr root_addr_aligned empty_hat_def hat_nxt_def saved_idx_def Let_def)
  done

lemma keys_ascending_empty:
  "empty_hat s \<Longrightarrow> keys_ascending (Suc (Suc (Suc (Suc (Suc (Suc n)))))) s dr max0 = Inr []"
  by (simp add: keys_ascending_def bnd_def hat_start_empty)

text \<open>
  Claim C8 on the empty container with no root level (\<open>hat_open (0, 0)\<close>, nothing
  inserted).  \<open>hat_last\<close> returns 1, with \<open>cnt = 0\<close> and \<open>idx = -1\<close>: the root slot holds
  the empty bucket, which is not a null slot.  The ascending loop from \<open>hat_start\<close> on the
  empty key visits no key; the descending loop from \<open>hat_last\<close> calls \<open>hat_key\<close> on
  \<open>keys[-1]\<close>, outside the sort array.
\<close>

theorem C8_last_on_empty_trie:
  "bnd (hat_open 0 0) (\<lambda>s.
   bnd (hat_last 10 s (hat_cursor s [])) (\<lambda>(ok, c).
     Inr (ok, cur_cnt c, cur_idx c, keys_ascending 10 s [] 256, keys_descending 10 s [] 256)))
   = Inr (True, 0, - 1, Inr [], Inl OutOfBounds)"
proof -
  obtain s where s: "hat_open 0 0 = Inr s" "empty_hat s"
    using hat_open_empty by blast
  obtain c where c: "hat_last 10 s (hat_cursor s []) = Inr (True, c)" "cur_cnt c = 0"
      "cur_idx c = - 1"
    using hat_last_empty [OF s(2), of 7 "[]"] by (auto simp add: eval_nat_numeral)
  have "keys_ascending 10 s [] 256 = Inr []"
    using keys_ascending_empty [OF s(2), of 4 "[]" 256] by (simp add: eval_nat_numeral)
  moreover have "keys_descending 10 s [] 256 = Inl OutOfBounds"
    using keys_descending_empty [OF s(2), of 7 "[]" 256] by (simp add: eval_nat_numeral)
  ultimately show ?thesis
    using s c by (simp add: bnd_def)
qed

end
